theory Spec2Isabelle
  imports Main "HOL-Library.AList"
begin

section \<open>The relay server of the Mephisto router\<close>

text \<open>
  A shallow embedding of the Node.js relay server that sits between the agents'
  sockets and the Mephisto system socket: the module-level variables become one record
  of state that every handler takes and returns, the things a handler does to the outside
  (\<^verbatim>\<open>console.log\<close>, \<^verbatim>\<open>socket.send\<close>, \<^verbatim>\<open>setTimeout\<close>, \<^verbatim>\<open>res.json\<close>) become a list
  of effects in program order, and a thrown exception becomes a value.

  Conventions of the embedding.
  \<^item> A JavaScript object used as a dictionary is an association list of its own
    properties: \<open>map_of\<close> reads a key (\<open>None\<close> is \<^verbatim>\<open>undefined\<close>), \<open>AList.update\<close> is an
    assignment \<^verbatim>\<open>obj[k] = v\<close> (an existing key keeps its place, a new one goes last),
    \<open>AList.delete\<close> is \<^verbatim>\<open>delete obj[k]\<close>, and \<^verbatim>\<open>for (k in obj)\<close> walks \<open>map fst\<close>.
    JavaScript enumerates integer-like keys before the others; no statement below
    depends on the order in which agents are enumerated.
    Properties inherited from \<^verbatim>\<open>Object.prototype\<close> are not modelled: a key such as
    \<^verbatim>\<open>toString\<close> reads as absent here, where the server would find a function and throw
    a TypeError of another wording at the same place.
  \<^item> A packet is the parsed envelope with its three identity fields as strings and its
    payload as a JSON value; messages that parse to something else are outside the model.
  \<^item> What the runtime decides is an argument: the result of \<^verbatim>\<open>JSON.parse\<close>, the
    \<^verbatim>\<open>readyState\<close> of each socket when a handler runs, the identifier \<^verbatim>\<open>uuidv4()\<close>
    returns, and the argument the transport passes to a send callback. A send reports
    its failure to the callback and does not throw: the sockets are server-side
    sockets, which are open when the server first sees them.
  \<^item> The routes \<^verbatim>\<open>/submit_task\<close>, \<^verbatim>\<open>/is_alive\<close>, \<^verbatim>\<open>/get_timestamp\<close> and the static
    pages answer their own caller at once and write none of the module's variables; they
    are left out.
\<close>

subsection \<open>Constants\<close>

definition STATUS_INIT :: string where
  "STATUS_INIT = ''init''"

definition STATUS_CONNECTED :: string where
  "STATUS_CONNECTED = ''connected''"

definition STATUS_DISCONNECTED :: string where
  "STATUS_DISCONNECTED = ''disconnect''"

definition STATUS_DONE :: string where
  "STATUS_DONE = ''done''"

definition SYSTEM_SOCKET_ID :: string where
  "SYSTEM_SOCKET_ID = ''mephisto''"

definition SERVER_SOCKET_ID :: string where
  "SERVER_SOCKET_ID = ''mephisto_server''"

definition PACKET_TYPE_REQUEST_AGENT_STATUS :: string where
  "PACKET_TYPE_REQUEST_AGENT_STATUS = ''request_status''"

definition PACKET_TYPE_RETURN_AGENT_STATUS :: string where
  "PACKET_TYPE_RETURN_AGENT_STATUS = ''return_status''"

definition PACKET_TYPE_INIT_DATA :: string where
  "PACKET_TYPE_INIT_DATA = ''initial_data_send''"

definition PACKET_TYPE_AGENT_ACTION :: string where
  "PACKET_TYPE_AGENT_ACTION = ''agent_action''"

definition PACKET_TYPE_NEW_AGENT :: string where
  "PACKET_TYPE_NEW_AGENT = ''register_agent''"

definition PACKET_TYPE_NEW_WORKER :: string where
  "PACKET_TYPE_NEW_WORKER = ''register_worker''"

definition PACKET_TYPE_GET_INIT_DATA :: string where
  "PACKET_TYPE_GET_INIT_DATA = ''init_data_request''"

definition PACKET_TYPE_ALIVE :: string where
  "PACKET_TYPE_ALIVE = ''alive''"

definition PACKET_TYPE_PROVIDER_DETAILS :: string where
  "PACKET_TYPE_PROVIDER_DETAILS = ''provider_details''"

definition PACKET_TYPE_SUBMIT_ONBOARDING :: string where
  "PACKET_TYPE_SUBMIT_ONBOARDING = ''submit_onboarding''"

subsection \<open>Values, packets, sockets\<close>

text \<open>
  A JSON value as \<^verbatim>\<open>JSON.parse\<close> builds it. The server does no arithmetic, so a number
  is kept as the string JavaScript prints for it. \<open>JNull\<close> also stands for a payload
  field that is missing from the envelope: reading a property of either throws.
\<close>

datatype jsval =
    JNull
  | JBool bool
  | JNum string
  | JStr string
  | JArr "jsval list"
  | JObj "(string \<times> jsval) list"

record packet =
  packet_type :: string
  sender_id :: string
  receiver_id :: string
  data :: jsval

text \<open>
  A socket is the connection object (\<open>sock_ref\<close> tells two connections apart) with the
  \<^verbatim>\<open>id\<close> property the server uses as a key. Its \<^verbatim>\<open>readyState\<close> changes behind the
  server's back, so a handler that reads it takes the current value of every socket as
  an argument of type \<open>socket \<Rightarrow> nat\<close>.
\<close>

record socket =
  sock_ref :: nat
  sock_id :: string

type_synonym res = nat

datatype js_error =
    SyntaxError
  | ReferenceError string
  | TypeError string

datatype log_arg = LStr string | LPacket packet | LError js_error

text \<open>The callbacks handed to \<^verbatim>\<open>socket.send\<close> and \<^verbatim>\<open>setTimeout\<close>, as closures.\<close>

datatype send_callback = ack_cb socket packet | ack2_cb

datatype timer_fn = main_thread_fn | retry_fn socket packet

datatype timer = Timeout timer_fn nat

datatype effect =
    console_log log_arg
  | socket_send socket packet send_callback
  | setTimeout timer_fn nat
  | res_json res packet

subsection \<open>Agent state\<close>

record LocalAgentState =
  status :: string
  agent_id :: string
  unsent_messages :: "packet list"

text \<open>The constructor, as \<^verbatim>\<open>new LocalAgentState(agent_id)\<close> would run it.\<close>

definition LocalAgentState_new :: "string \<Rightarrow> LocalAgentState" where
  "LocalAgentState_new aid =
     \<lparr>status = STATUS_INIT, agent_id = aid, unsent_messages = []\<rparr>"

text \<open>
  Calling the class: with \<^verbatim>\<open>new\<close> the constructor runs; without it, as in
  \<^verbatim>\<open>LocalAgentState(agent_id)\<close>, JavaScript throws a TypeError before the constructor
  body is entered.
\<close>

definition LocalAgentState_call :: "bool \<Rightarrow> string \<Rightarrow> js_error + LocalAgentState" where
  "LocalAgentState_call with_new aid =
     (if with_new then Inr (LocalAgentState_new aid)
      else Inl (TypeError ''Class constructor LocalAgentState cannot be invoked without new''))"

text \<open>
  \<^verbatim>\<open>get_sendable_messages\<close> returns the whole list and leaves a fresh empty one in the
  object: the returned list and the new state of the object.
\<close>

definition get_sendable_messages :: "LocalAgentState \<Rightarrow> packet list \<times> LocalAgentState" where
  "get_sendable_messages this =
     (let sendable_messages = unsent_messages this
      in (sendable_messages, this\<lparr>unsent_messages := []\<rparr>))"

subsection \<open>The module's state\<close>

text \<open>
  \<open>socket_id_to_agent\<close> holds the same agent object as \<open>agent_id_to_agent\<close>; the server
  only ever tests an entry of it against \<^verbatim>\<open>undefined\<close>, so it is kept by value.
\<close>

record server_state =
  agent_id_to_socket :: "(string \<times> socket) list"
  socket_id_to_agent :: "(string \<times> LocalAgentState) list"
  mephisto_message_queue :: "packet list"
  main_thread_timeout :: "timer option"
  mephisto_socket :: "socket option"
  agent_id_to_agent :: "(string \<times> LocalAgentState) list"
  pending_provider_requests :: "(string \<times> res) list"
  pending_init_requests :: "(string \<times> res) list"

definition initial_state :: server_state where
  "initial_state =
     \<lparr>agent_id_to_socket = [], socket_id_to_agent = [], mephisto_message_queue = [],
      main_thread_timeout = None, mephisto_socket = None, agent_id_to_agent = [],
      pending_provider_requests = [], pending_init_requests = []\<rparr>"

text \<open>
  What a handler leaves behind: the exception it threw, if any, the state it reached and
  the effects it had up to that point.
\<close>

type_synonym outcome = "js_error option \<times> server_state \<times> effect list"

subsection \<open>Sending a message\<close>

text \<open>
  The synchronous part of \<^verbatim>\<open>_send_message\<close>: the two guards, the log line and the first
  \<^verbatim>\<open>socket.send\<close>, which is given the callback \<^verbatim>\<open>ack\<close>.
\<close>

definition send_message :: "(socket \<Rightarrow> nat) \<Rightarrow> socket option \<Rightarrow> packet \<Rightarrow> effect list" where
  "send_message readyState socket_opt pkt =
     (case socket_opt of
        None \<Rightarrow> []
      | Some sock \<Rightarrow>
          if readyState sock = 3 then []
          else [console_log (LPacket pkt), socket_send sock pkt (ack_cb sock pkt)])"

text \<open>
  The callback \<^verbatim>\<open>ack(error)\<close>; \<open>None\<close> is \<^verbatim>\<open>undefined\<close>. On an error it arms a timer of
  500 ms whose body is the retry.
\<close>

definition ack :: "socket \<Rightarrow> packet \<Rightarrow> js_error option \<Rightarrow> effect list" where
  "ack sock pkt error =
     (if error = None then [] else [setTimeout (retry_fn sock pkt) 500])"

text \<open>The body of that timer: the second \<^verbatim>\<open>socket.send\<close>, given the callback \<^verbatim>\<open>ack2\<close>.\<close>

definition retry_send :: "socket \<Rightarrow> packet \<Rightarrow> effect list" where
  "retry_send sock pkt = [socket_send sock pkt ack2_cb]"

definition ack2 :: "js_error option \<Rightarrow> effect list" where
  "ack2 error2 =
     (case error2 of None \<Rightarrow> [] | Some e \<Rightarrow> [console_log (LError e)])"

text \<open>
  The runtime's part: what runs when the operation an effect started completes with
  the argument \<open>r\<close> (a send calls its callback with it, a timer runs its function).
  The dispatch tick itself is \<open>main_thread\<close> below and is not run from here.
\<close>

fun completion :: "js_error option \<Rightarrow> effect \<Rightarrow> effect list" where
  "completion r (socket_send sock pkt (ack_cb sock' pkt')) = ack sock' pkt' r"
| "completion r (socket_send sock pkt ack2_cb) = ack2 r"
| "completion r (setTimeout (retry_fn sock pkt) delay) = retry_send sock pkt"
| "completion r e = []"

text \<open>
  One delivery from the call of \<^verbatim>\<open>_send_message\<close> to its end: the synchronous part, then
  the first send completes with \<open>error\<close>, the timer (if armed) fires, and the second
  send completes with \<open>error2\<close>.
\<close>

definition delivery ::
  "(socket \<Rightarrow> nat) \<Rightarrow> socket option \<Rightarrow> packet \<Rightarrow> js_error option \<Rightarrow> js_error option \<Rightarrow> effect list" where
  "delivery readyState socket_opt pkt error error2 =
     (let started = send_message readyState socket_opt pkt;
          after_ack = concat (map (completion error) started);
          after_timer = concat (map (completion None) after_ack);
          after_ack2 = concat (map (completion error2) after_timer)
      in started @ after_ack @ after_timer @ after_ack2)"

subsection \<open>Reading the correlation key\<close>

text \<open>
  JavaScript's conversion of a value to a string, which is what a value becomes when it
  is used as a property key. An array prints its elements separated by commas, a
  \<^verbatim>\<open>null\<close> element as nothing.
\<close>

fun js_to_string :: "jsval \<Rightarrow> string" and js_join :: "jsval list \<Rightarrow> string" where
  "js_to_string JNull = ''null''"
| "js_to_string (JBool b) = (if b then ''true'' else ''false'')"
| "js_to_string (JNum repr) = repr"
| "js_to_string (JStr s) = s"
| "js_to_string (JArr xs) = js_join xs"
| "js_to_string (JObj kvs) = ''[object Object]''"
| "js_join [] = []"
| "js_join (x # xs) =
     (case x of JNull \<Rightarrow> [] | _ \<Rightarrow> js_to_string x) @ (if xs = [] then [] else '','' @ js_join xs)"

text \<open>
  \<^verbatim>\<open>packet['data']['request_id']\<close>: a property of \<^verbatim>\<open>null\<close> or of a missing payload
  throws, an object yields its own property, and any other value has no such property.
\<close>

definition get_request_id :: "jsval \<Rightarrow> js_error + jsval option" where
  "get_request_id d =
     (case d of
        JNull \<Rightarrow> Inl (TypeError ''Cannot read property request_id of null or undefined'')
      | JObj kvs \<Rightarrow> Inr (map_of kvs ''request_id'')
      | _ \<Rightarrow> Inr None)"

subsection \<open>The packet handlers\<close>

definition handle_alive :: "socket \<Rightarrow> packet \<Rightarrow> server_state \<Rightarrow> outcome" where
  "handle_alive sock alive_packet s =
     (if sender_id alive_packet = SYSTEM_SOCKET_ID then
        (let s1 = s\<lparr>mephisto_socket := Some sock\<rparr>
         in if main_thread_timeout s1 = None then
              (None,
               s1\<lparr>main_thread_timeout := Some (Timeout main_thread_fn 50)\<rparr>,
               [console_log (LStr ''launching main thread''), setTimeout main_thread_fn 50])
            else (None, s1, []))
      else
        (let aid = sender_id alive_packet
         in case LocalAgentState_call False aid of
              Inl e \<Rightarrow> (Some e, s, [])
            | Inr agent \<Rightarrow>
                (None,
                 s\<lparr>agent_id_to_socket := AList.update aid sock (agent_id_to_socket s),
                   socket_id_to_agent := AList.update (sock_id sock) agent (socket_id_to_agent s),
                   agent_id_to_agent := AList.update aid agent (agent_id_to_agent s)\<rparr>,
                 [])))"

text \<open>
  The loop of \<^verbatim>\<open>handle_get_agent_status\<close> over the keys of \<^verbatim>\<open>agent_id_to_agent\<close>; reading
  \<^verbatim>\<open>.status\<close> of a missing entry would throw.
\<close>

fun agent_statuses_loop ::
  "(string \<times> LocalAgentState) list \<Rightarrow> string list \<Rightarrow> (string \<times> jsval) list
     \<Rightarrow> js_error + (string \<times> jsval) list" where
  "agent_statuses_loop agents [] agent_statuses = Inr agent_statuses"
| "agent_statuses_loop agents (aid # rest) agent_statuses =
     (case map_of agents aid of
        None \<Rightarrow> Inl (TypeError ''Cannot read property status of undefined'')
      | Some agent \<Rightarrow>
          agent_statuses_loop agents rest (AList.update aid (JStr (status agent)) agent_statuses))"

definition handle_get_agent_status :: "packet \<Rightarrow> server_state \<Rightarrow> outcome" where
  "handle_get_agent_status status_packet s =
     (case agent_statuses_loop (agent_id_to_agent s) (map fst (agent_id_to_agent s)) [] of
        Inl e \<Rightarrow> (Some e, s, [])
      | Inr agent_statuses \<Rightarrow>
          (let pkt = \<lparr>packet_type = PACKET_TYPE_RETURN_AGENT_STATUS,
                      sender_id = SERVER_SOCKET_ID,
                      receiver_id = SYSTEM_SOCKET_ID,
                      data = JObj agent_statuses\<rparr>
           in (None, s\<lparr>mephisto_message_queue := mephisto_message_queue s @ [pkt]\<rparr>, [])))"

text \<open>
  Reading an identifier: the value bound to the name in scope, or a ReferenceError when
  the name is bound nowhere. Where the body of \<^verbatim>\<open>handle_forward(packet)\<close> runs, the names
  bound to a packet are its parameter \<^verbatim>\<open>packet\<close> and nothing else: the module declares no
  \<^verbatim>\<open>alive_packet\<close>, which is a parameter of \<^verbatim>\<open>handle_alive\<close> only.
\<close>

definition read_identifier :: "(string \<times> packet) list \<Rightarrow> string \<Rightarrow> js_error + packet" where
  "read_identifier scope name =
     (case map_of scope name of None \<Rightarrow> Inl (ReferenceError name) | Some v \<Rightarrow> Inr v)"

definition handle_forward :: "packet \<Rightarrow> server_state \<Rightarrow> outcome" where
  "handle_forward pkt s =
     (case read_identifier [(''packet'', pkt)] ''alive_packet'' of
        Inl e \<Rightarrow> (Some e, s, [])
      | Inr alive_packet \<Rightarrow>
          if receiver_id alive_packet = SYSTEM_SOCKET_ID then
            (None, s\<lparr>mephisto_message_queue := mephisto_message_queue s @ [pkt]\<rparr>, [])
          else
            (case map_of (agent_id_to_agent s) (receiver_id pkt) of
               None \<Rightarrow> (Some (TypeError ''Cannot read property unsent_messages of undefined''), s, [])
             | Some agent \<Rightarrow>
                 (None,
                  s\<lparr>agent_id_to_agent :=
                      AList.update (receiver_id pkt)
                        (agent\<lparr>unsent_messages := unsent_messages agent @ [pkt]\<rparr>)
                        (agent_id_to_agent s)\<rparr>,
                  [])))"

text \<open>
  The branch of the message handler for \<^verbatim>\<open>provider_details\<close> and
  \<^verbatim>\<open>initial_data_send\<close>. First the key: \<^verbatim>\<open>data.request_id\<close>, or \<^verbatim>\<open>receiver_id\<close> when
  that is \<^verbatim>\<open>undefined\<close>, as the string it is when used as a property key.
\<close>

definition correlation_key :: "packet \<Rightarrow> js_error + string" where
  "correlation_key pkt =
     (case get_request_id (data pkt) of
        Inl e \<Rightarrow> Inl e
      | Inr found \<Rightarrow>
          (let request_id = (case found of None \<Rightarrow> JStr (receiver_id pkt) | Some v \<Rightarrow> v)
           in Inr (js_to_string request_id)))"

text \<open>Then the lookup, whose result is used at once, and the \<^verbatim>\<open>delete\<close>.\<close>

definition resolve_provider_request :: "packet \<Rightarrow> server_state \<Rightarrow> outcome" where
  "resolve_provider_request pkt s =
     (case correlation_key pkt of
        Inl e \<Rightarrow> (Some e, s, [])
      | Inr request_id \<Rightarrow>
          (case map_of (pending_provider_requests s) request_id of
             None \<Rightarrow> (Some (TypeError ''Cannot read property json of undefined''), s, [])
           | Some res_obj \<Rightarrow>
               (None,
                s\<lparr>pending_provider_requests :=
                    AList.delete request_id (pending_provider_requests s)\<rparr>,
                [res_json res_obj pkt])))"

text \<open>
  The body of the \<^verbatim>\<open>try\<close> block of the message handler, given what \<^verbatim>\<open>JSON.parse\<close> made
  of the message: a SyntaxError or a packet.
\<close>

definition message_try :: "socket \<Rightarrow> js_error + packet \<Rightarrow> server_state \<Rightarrow> outcome" where
  "message_try sock parsed s =
     (case parsed of
        Inl e \<Rightarrow> (Some e, s, [])
      | Inr pkt \<Rightarrow>
          (case (if packet_type pkt = PACKET_TYPE_REQUEST_AGENT_STATUS then
                   handle_get_agent_status pkt s
                 else if packet_type pkt = PACKET_TYPE_AGENT_ACTION then
                   handle_forward pkt s
                 else if packet_type pkt = PACKET_TYPE_ALIVE then
                   handle_alive sock pkt s
                 else if packet_type pkt = PACKET_TYPE_PROVIDER_DETAILS
                       \<or> packet_type pkt = PACKET_TYPE_INIT_DATA then
                   resolve_provider_request pkt s
                 else (None, s, []))
           of (thrown, s', effs) \<Rightarrow> (thrown, s', console_log (LPacket pkt) # effs)))"

text \<open>
  The message handler: the \<^verbatim>\<open>try\<close> block and its \<^verbatim>\<open>catch\<close>, which logs and returns.
  Nothing leaves the handler as an exception.
\<close>

definition on_message :: "socket \<Rightarrow> js_error + packet \<Rightarrow> server_state \<Rightarrow> server_state \<times> effect list" where
  "on_message sock parsed s =
     (case message_try sock parsed s of
        (None, s', effs) \<Rightarrow> (s', effs)
      | (Some error, s', effs) \<Rightarrow>
          (s', effs @ [console_log (LStr ''Transient error on message''),
                       console_log (LError error)]))"

subsection \<open>The dispatch tick\<close>

text \<open>
  The first loop of \<^verbatim>\<open>main_thread\<close>, over the keys of \<^verbatim>\<open>agent_id_to_socket\<close>. A key
  without an agent object makes \<^verbatim>\<open>agent_state.get_sendable_messages()\<close> throw out of
  the tick, with the batches sent so far already gone.
\<close>

fun agent_loop :: "(socket \<Rightarrow> nat) \<Rightarrow> string list \<Rightarrow> server_state \<Rightarrow> effect list \<Rightarrow> outcome" where
  "agent_loop readyState [] s effs = (None, s, effs)"
| "agent_loop readyState (aid # rest) s effs =
     (case map_of (agent_id_to_agent s) aid of
        None \<Rightarrow>
          (Some (TypeError ''Cannot read property get_sendable_messages of undefined''), s, effs)
      | Some agent_state \<Rightarrow>
          (case get_sendable_messages agent_state of
             (sendable_messages, agent_state') \<Rightarrow>
               (let s' = s\<lparr>agent_id_to_agent :=
                             AList.update aid agent_state' (agent_id_to_agent s)\<rparr>
                in if length sendable_messages > 0 then
                     agent_loop readyState rest s'
                       (effs @ concat (map (send_message readyState (map_of (agent_id_to_socket s') aid))
                                         sendable_messages))
                   else agent_loop readyState rest s' effs)))"

text \<open>
  The \<^verbatim>\<open>while\<close> loop that shifts \<^verbatim>\<open>mephisto_message_queue\<close> into \<^verbatim>\<open>mephisto_messages\<close>:
  what is left of the queue and the messages taken.
\<close>

fun shift_all :: "packet list \<Rightarrow> packet list \<Rightarrow> packet list \<times> packet list" where
  "shift_all [] mephisto_messages = ([], mephisto_messages)"
| "shift_all (pkt # queue) mephisto_messages = shift_all queue (mephisto_messages @ [pkt])"

definition main_thread :: "(socket \<Rightarrow> nat) \<Rightarrow> server_state \<Rightarrow> outcome" where
  "main_thread readyState s =
     (case agent_loop readyState (map fst (agent_id_to_socket s)) s [] of
        (Some e, s1, effs1) \<Rightarrow> (Some e, s1, effs1)
      | (None, s1, effs1) \<Rightarrow>
          (case shift_all (mephisto_message_queue s1) [] of
             (queue, mephisto_messages) \<Rightarrow>
               (let s2 = s1\<lparr>mephisto_message_queue := queue\<rparr>;
                    effs2 = (if length mephisto_messages > 0 then
                               concat (map (send_message readyState (mephisto_socket s2))
                                         mephisto_messages)
                             else [])
                in (None,
                    s2\<lparr>main_thread_timeout := Some (Timeout main_thread_fn 50)\<rparr>,
                    effs1 @ effs2 @ [setTimeout main_thread_fn 50]))))"

subsection \<open>The HTTP routes that ask the system connection\<close>

text \<open>
  \<^verbatim>\<open>make_provider_request\<close>, with the identifier \<^verbatim>\<open>uuidv4()\<close> returned as \<open>request_id\<close>.
  A \<^verbatim>\<open>provider_data\<close> that the request body lacks is \<open>None\<close> and is left out of the
  payload, as serialisation leaves it out.
\<close>

definition make_provider_request ::
  "(socket \<Rightarrow> nat) \<Rightarrow> string \<Rightarrow> string \<Rightarrow> jsval option \<Rightarrow> res \<Rightarrow> server_state
     \<Rightarrow> server_state \<times> effect list" where
  "make_provider_request readyState request_id request_type provider_data res_obj s =
     (let request_packet =
            \<lparr>packet_type = request_type,
             sender_id = SERVER_SOCKET_ID,
             receiver_id = SYSTEM_SOCKET_ID,
             data = JObj ((case provider_data of
                             None \<Rightarrow> []
                           | Some v \<Rightarrow> [(''provider_data'', v)])
                          @ [(''request_id'', JStr request_id)])\<rparr>;
          s' = s\<lparr>pending_provider_requests :=
                   AList.update request_id res_obj (pending_provider_requests s)\<rparr>
      in (s', send_message readyState (mephisto_socket s') request_packet))"

datatype endpoint = initial_task_data | register_worker | request_agent | submit_onboarding

text \<open>The four routes: each passes its packet type and the body's \<^verbatim>\<open>provider_data\<close>.\<close>

definition app_post ::
  "endpoint \<Rightarrow> (socket \<Rightarrow> nat) \<Rightarrow> string \<Rightarrow> jsval option \<Rightarrow> res \<Rightarrow> server_state
     \<Rightarrow> server_state \<times> effect list" where
  "app_post route readyState request_id provider_data res_obj s =
     (case route of
        initial_task_data \<Rightarrow>
          make_provider_request readyState request_id PACKET_TYPE_GET_INIT_DATA provider_data res_obj s
      | register_worker \<Rightarrow>
          make_provider_request readyState request_id PACKET_TYPE_NEW_WORKER provider_data res_obj s
      | request_agent \<Rightarrow>
          make_provider_request readyState request_id PACKET_TYPE_NEW_AGENT provider_data res_obj s
      | submit_onboarding \<Rightarrow>
          make_provider_request readyState request_id PACKET_TYPE_SUBMIT_ONBOARDING provider_data res_obj s)"

subsection \<open>The other socket handlers\<close>

text \<open>
  A new connection is logged. A disconnect is logged and the agent of the socket looked
  up; the branch for an agent that is found is empty. A socket error is logged.
\<close>

definition on_connection :: "socket \<Rightarrow> server_state \<Rightarrow> server_state \<times> effect list" where
  "on_connection sock s = (s, [console_log (LStr ''Client connected'')])"

definition on_disconnect :: "socket \<Rightarrow> server_state \<Rightarrow> server_state \<times> effect list" where
  "on_disconnect sock s =
     (let agent = map_of (socket_id_to_agent s) (sock_id sock)
      in (if agent \<noteq> None then s else s, [console_log (LStr ''disconnected'')]))"

definition on_error :: "socket \<Rightarrow> js_error \<Rightarrow> server_state \<Rightarrow> server_state \<times> effect list" where
  "on_error sock err s =
     (s, [console_log (LStr ''Caught socket error''), console_log (LError err)])"

subsection \<open>Runs of the server\<close>

text \<open>
  What the event loop hands to the server: a connection, a disconnect or an error of a
  socket, a message on a socket (with the result of parsing it), a firing of the
  dispatch timer, a call of one of the four routes. An exception that leaves
  \<open>main_thread\<close> is caught by nobody and ends the run.
\<close>

datatype event =
    ws_connection socket
  | ws_disconnect socket
  | ws_error socket js_error
  | ws_message socket "js_error + packet"
  | timer_main_thread "socket \<Rightarrow> nat"
  | http_post endpoint "socket \<Rightarrow> nat" string "jsval option" res

definition handle_event :: "event \<Rightarrow> server_state \<Rightarrow> outcome" where
  "handle_event ev s =
     (case ev of
        ws_connection sock \<Rightarrow>
          (case on_connection sock s of (s', effs) \<Rightarrow> (None, s', effs))
      | ws_disconnect sock \<Rightarrow>
          (case on_disconnect sock s of (s', effs) \<Rightarrow> (None, s', effs))
      | ws_error sock err \<Rightarrow>
          (case on_error sock err s of (s', effs) \<Rightarrow> (None, s', effs))
      | ws_message sock parsed \<Rightarrow>
          (case on_message sock parsed s of (s', effs) \<Rightarrow> (None, s', effs))
      | timer_main_thread readyState \<Rightarrow> main_thread readyState s
      | http_post route readyState request_id provider_data res_obj \<Rightarrow>
          (case app_post route readyState request_id provider_data res_obj s of
             (s', effs) \<Rightarrow> (None, s', effs)))"

fun run :: "event list \<Rightarrow> server_state \<Rightarrow> outcome" where
  "run [] s = (None, s, [])"
| "run (ev # evs) s =
     (case handle_event ev s of
        (Some e, s', effs) \<Rightarrow> (Some e, s', effs)
      | (None, s', effs) \<Rightarrow>
          (case run evs s' of (thrown, s'', effs') \<Rightarrow> (thrown, s'', effs @ effs')))"

subsection \<open>Vocabulary of the statements\<close>

text \<open>The packet type each route asks with.\<close>

fun route_packet_type :: "endpoint \<Rightarrow> string" where
  "route_packet_type initial_task_data = PACKET_TYPE_GET_INIT_DATA"
| "route_packet_type register_worker = PACKET_TYPE_NEW_WORKER"
| "route_packet_type request_agent = PACKET_TYPE_NEW_AGENT"
| "route_packet_type submit_onboarding = PACKET_TYPE_SUBMIT_ONBOARDING"

text \<open>The request packet a route builds from the identifier and the caller's payload.\<close>

definition request_packet_of :: "endpoint \<Rightarrow> string \<Rightarrow> jsval option \<Rightarrow> packet" where
  "request_packet_of route request_id provider_data =
     \<lparr>packet_type = route_packet_type route,
      sender_id = SERVER_SOCKET_ID,
      receiver_id = SYSTEM_SOCKET_ID,
      data = JObj ((case provider_data of None \<Rightarrow> [] | Some v \<Rightarrow> [(''provider_data'', v)])
                   @ [(''request_id'', JStr request_id)])\<rparr>"

text \<open>A reply packet: one of the two types the resolving branch takes.\<close>

definition is_reply :: "packet \<Rightarrow> bool" where
  "is_reply pkt \<longleftrightarrow>
     packet_type pkt = PACKET_TYPE_PROVIDER_DETAILS \<or> packet_type pkt = PACKET_TYPE_INIT_DATA"

text \<open>An effect is a send.\<close>

fun is_send :: "effect \<Rightarrow> bool" where
  "is_send (socket_send sock pkt cb) = True"
| "is_send e = False"

text \<open>An effect is a send on the socket \<open>sock\<close>.\<close>

fun sent_to :: "socket \<Rightarrow> effect \<Rightarrow> bool" where
  "sent_to sock (socket_send sock' pkt cb) = (sock' = sock)"
| "sent_to sock e = False"

text \<open>
  The sends of a delivery that completed without an error, when its first send
  completed with \<open>error\<close> and its second with \<open>error2\<close>.
\<close>

fun send_ok :: "js_error option \<Rightarrow> js_error option \<Rightarrow> effect \<Rightarrow> bool" where
  "send_ok error error2 (socket_send sock pkt (ack_cb sock' pkt')) = (error = None)"
| "send_ok error error2 (socket_send sock pkt ack2_cb) = (error2 = None)"
| "send_ok error error2 e = False"

text \<open>An effect writes the HTTP response parked under the key \<open>k\<close>.\<close>

fun responds_to :: "string \<Rightarrow> effect \<Rightarrow> bool" where
  "responds_to k (res_json res_obj pkt) = (correlation_key pkt = Inr k)"
| "responds_to k e = False"

text \<open>An event brings a reply packet whose correlation key is \<open>k\<close>.\<close>

fun brings_reply :: "string \<Rightarrow> event \<Rightarrow> bool" where
  "brings_reply k (ws_message sock (Inr pkt)) = (is_reply pkt \<and> correlation_key pkt = Inr k)"
| "brings_reply k ev = False"

text \<open>The identifiers the calls of the routes in a run were given.\<close>

fun request_ids :: "event list \<Rightarrow> string list" where
  "request_ids [] = []"
| "request_ids (http_post route readyState request_id provider_data res_obj # evs) =
     request_id # request_ids evs"
| "request_ids (ev # evs) = request_ids evs"

text \<open>A registration of the system connection: an alive packet of the system identity.\<close>

definition system_alive :: "packet \<Rightarrow> bool" where
  "system_alive pkt \<longleftrightarrow>
     packet_type pkt = PACKET_TYPE_ALIVE \<and> sender_id pkt = SYSTEM_SOCKET_ID"

text \<open>An effect starts the dispatch loop.\<close>

definition starts_loop :: "effect \<Rightarrow> bool" where
  "starts_loop e \<longleftrightarrow> e = setTimeout main_thread_fn 50"

text \<open>The events of a sequence of registrations: a message from each socket, parsed.\<close>

definition registrations :: "(socket \<times> packet) list \<Rightarrow> event list" where
  "registrations regs = map (\<lambda>(sock, pkt). ws_message sock (Inr pkt)) regs"

text \<open>An effect writes to the response handle \<open>h\<close>.\<close>

fun writes_to :: "res \<Rightarrow> effect \<Rightarrow> bool" where
  "writes_to h (res_json res_obj pkt) = (res_obj = h)"
| "writes_to h e = False"

text \<open>The response handles the calls of the routes in a run were given.\<close>

fun response_handles :: "event list \<Rightarrow> res list" where
  "response_handles [] = []"
| "response_handles (http_post route readyState request_id provider_data res_obj # evs) =
     res_obj # response_handles evs"
| "response_handles (ev # evs) = response_handles evs"

subsection \<open>Example values\<close>

definition system_sock :: socket where
  "system_sock = \<lparr>sock_ref = 0, sock_id = ''ws-0''\<rparr>"

definition agent_sock :: socket where
  "agent_sock = \<lparr>sock_ref = 1, sock_id = ''ws-1''\<rparr>"

definition other_sock :: socket where
  "other_sock = \<lparr>sock_ref = 2, sock_id = ''ws-2''\<rparr>"

definition all_open :: "socket \<Rightarrow> nat" where
  "all_open sock = 1"

definition all_closed :: "socket \<Rightarrow> nat" where
  "all_closed sock = 3"

definition action_packet :: packet where
  "action_packet =
     \<lparr>packet_type = ''agent_action'', sender_id = ''agent_1'', receiver_id = ''mephisto'',
      data = JObj [(''text'', JStr ''hello'')]\<rparr>"

definition action_packet2 :: packet where
  "action_packet2 =
     \<lparr>packet_type = ''agent_action'', sender_id = ''mephisto'', receiver_id = ''agent_1'',
      data = JObj [(''text'', JStr ''again'')]\<rparr>"

definition agent_alive_packet :: packet where
  "agent_alive_packet =
     \<lparr>packet_type = ''alive'', sender_id = ''agent_1'', receiver_id = ''mephisto_server'',
      data = JObj []\<rparr>"

definition system_alive_packet :: packet where
  "system_alive_packet =
     \<lparr>packet_type = ''alive'', sender_id = ''mephisto'', receiver_id = ''mephisto_server'',
      data = JObj []\<rparr>"

definition status_request_packet :: packet where
  "status_request_packet =
     \<lparr>packet_type = ''request_status'', sender_id = ''mephisto'',
      receiver_id = ''mephisto_server'', data = JObj []\<rparr>"

definition reply_packet :: packet where
  "reply_packet =
     \<lparr>packet_type = ''provider_details'', sender_id = ''mephisto'',
      receiver_id = ''mephisto_server'',
      data = JObj [(''request_id'', JStr ''req-1''), (''ok'', JBool True)]\<rparr>"

definition reply_packet2 :: packet where
  "reply_packet2 =
     \<lparr>packet_type = ''initial_data_send'', sender_id = ''mephisto'', receiver_id = ''req-1'',
      data = JObj [(''ok'', JBool False)]\<rparr>"

definition agent_one :: LocalAgentState where
  "agent_one =
     \<lparr>status = ''init'', agent_id = ''agent_1'',
      unsent_messages = [action_packet2, action_packet]\<rparr>"

definition two_agents :: server_state where
  "two_agents =
     \<lparr>agent_id_to_socket = [(''agent_1'', agent_sock), (''agent_2'', other_sock)],
      socket_id_to_agent = [],
      mephisto_message_queue = [action_packet],
      main_thread_timeout = Some (Timeout main_thread_fn 50),
      mephisto_socket = Some system_sock,
      agent_id_to_agent =
        [(''agent_1'', agent_one),
         (''agent_2'', \<lparr>status = ''done'', agent_id = ''agent_2'', unsent_messages = []\<rparr>)],
      pending_provider_requests = [],
      pending_init_requests = []\<rparr>"

definition request_events :: "event list" where
  "request_events =
     [ws_message system_sock (Inr system_alive_packet),
      http_post request_agent all_open ''req-1'' (Some (JObj [(''a'', JNum ''1'')])) 7,
      ws_message system_sock (Inr reply_packet),
      timer_main_thread all_open,
      ws_message system_sock (Inr reply_packet2)]"

definition parked_state :: server_state where
  "parked_state = initial_state\<lparr>pending_provider_requests := [(''req-1'', 7)]\<rparr>"

definition example_request :: packet where
  "example_request =
     \<lparr>packet_type = ''register_agent'', sender_id = ''mephisto_server'', receiver_id = ''mephisto'',
      data = JObj [(''provider_data'', JObj [(''a'', JNum ''1'')]), (''request_id'', JStr ''req-1'')]\<rparr>"

definition registered_state :: server_state where
  "registered_state =
     initial_state\<lparr>mephisto_socket := Some system_sock,
                   main_thread_timeout := Some (Timeout main_thread_fn 50)\<rparr>"

definition new_system_sock :: socket where
  "new_system_sock = \<lparr>sock_ref = 3, sock_id = ''ws-3''\<rparr>"

text \<open>Two identifiers of the form \<^verbatim>\<open>uuidv4()\<close> returns.\<close>

definition example_uuid :: string where
  "example_uuid = ''1b4e28ba-2fa1-41d2-883f-0016d3cca427''"

definition other_uuid :: string where
  "other_uuid = ''9c5b94b1-35ad-49bb-b118-8e8fc24abf80''"

definition empty_snapshot :: packet where
  "empty_snapshot =
     \<lparr>packet_type = ''return_status'', sender_id = ''mephisto_server'', receiver_id = ''mephisto'',
      data = JObj []\<rparr>"

definition snapshot_queued :: server_state where
  "snapshot_queued = initial_state\<lparr>mephisto_message_queue := [empty_snapshot]\<rparr>"

definition other_reply :: packet where
  "other_reply =
     \<lparr>packet_type = ''provider_details'', sender_id = ''mephisto'',
      receiver_id = ''mephisto_server'',
      data = JObj [(''request_id'', JStr other_uuid), (''worker_id'', JStr ''w-1'')]\<rparr>"

text \<open>
  What follows a provider request in the example: the system connection registers, a
  tick, a reply for an identifier nobody was given, a second provider request, its
  reply, a tick.
\<close>

definition later_events :: "event list" where
  "later_events =
     [ws_message system_sock (Inr system_alive_packet),
      timer_main_thread all_open,
      ws_message system_sock (Inr reply_packet),
      http_post register_worker all_open other_uuid None 8,
      ws_message system_sock (Inr other_reply),
      timer_main_thread all_open]"

section \<open>Properties\<close>

subsection \<open>The branches of the message handler\<close>

lemmas packet_type_defs =
  PACKET_TYPE_REQUEST_AGENT_STATUS_def PACKET_TYPE_RETURN_AGENT_STATUS_def
  PACKET_TYPE_INIT_DATA_def PACKET_TYPE_AGENT_ACTION_def PACKET_TYPE_NEW_AGENT_def
  PACKET_TYPE_NEW_WORKER_def PACKET_TYPE_GET_INIT_DATA_def PACKET_TYPE_ALIVE_def
  PACKET_TYPE_PROVIDER_DETAILS_def PACKET_TYPE_SUBMIT_ONBOARDING_def

lemmas example_defs =
  system_sock_def agent_sock_def other_sock_def all_open_def all_closed_def
  action_packet_def action_packet2_def agent_alive_packet_def system_alive_packet_def
  status_request_packet_def reply_packet_def reply_packet2_def

lemma message_try_agent_action:
  "packet_type pkt = PACKET_TYPE_AGENT_ACTION \<Longrightarrow>
   message_try sock (Inr pkt) s =
     (Some (ReferenceError ''alive_packet''), s, [console_log (LPacket pkt)])"
  by (simp add: message_try_def handle_forward_def read_identifier_def packet_type_defs)

lemma message_try_agent_alive:
  "packet_type pkt = PACKET_TYPE_ALIVE \<Longrightarrow> sender_id pkt \<noteq> SYSTEM_SOCKET_ID \<Longrightarrow>
   message_try sock (Inr pkt) s =
     (Some (TypeError ''Class constructor LocalAgentState cannot be invoked without new''), s,
      [console_log (LPacket pkt)])"
  by (simp add: message_try_def handle_alive_def LocalAgentState_call_def packet_type_defs)

lemma message_try_system_alive:
  "system_alive pkt \<Longrightarrow>
   message_try sock (Inr pkt) s =
     (if main_thread_timeout s = None then
        (None,
         s\<lparr>mephisto_socket := Some sock,
           main_thread_timeout := Some (Timeout main_thread_fn 50)\<rparr>,
         [console_log (LPacket pkt), console_log (LStr ''launching main thread''),
          setTimeout main_thread_fn 50])
      else (None, s\<lparr>mephisto_socket := Some sock\<rparr>, [console_log (LPacket pkt)]))"
  by (auto simp add: message_try_def handle_alive_def system_alive_def packet_type_defs Let_def)

lemma message_try_reply:
  "is_reply pkt \<Longrightarrow>
   message_try sock (Inr pkt) s =
     (case resolve_provider_request pkt s of
        (thrown, s', effs) \<Rightarrow> (thrown, s', console_log (LPacket pkt) # effs))"
  by (auto simp add: message_try_def is_reply_def packet_type_defs)

lemma app_post_eq:
  "app_post route rs rid pd res_obj s =
     (s\<lparr>pending_provider_requests := AList.update rid res_obj (pending_provider_requests s)\<rparr>,
      send_message rs (mephisto_socket s) (request_packet_of route rid pd))"
  by (cases route) (simp_all add: app_post_def make_provider_request_def request_packet_of_def)

subsection \<open>The send primitive\<close>

text \<open>
  C9. \<^verbatim>\<open>_send_message\<close> does nothing when the socket is absent or its \<^verbatim>\<open>readyState\<close> is 3
  (closed). Otherwise it logs the packet and sends it once. If that send completes
  without an error nothing follows. If it completes with an error, a timer of 500 ms
  is armed and its body sends the packet exactly once more: two sends in all. If the
  second send completes without an error it is the one send that succeeded; if it
  completes with an error too, the error is logged, no send succeeded, and the delivery
  ends there: no third send, no timer, and the server's queues are not involved at all.
\<close>

theorem send_message_retry_once:
  "delivery readyState None pkt error error2 = []
   \<and> (readyState sock = 3 \<longrightarrow> delivery readyState (Some sock) pkt error error2 = [])
   \<and> (readyState sock \<noteq> 3 \<longrightarrow>
        delivery readyState (Some sock) pkt None error2 =
          [console_log (LPacket pkt), socket_send sock pkt (ack_cb sock pkt)]
      \<and> delivery readyState (Some sock) pkt (Some e) None =
          [console_log (LPacket pkt), socket_send sock pkt (ack_cb sock pkt),
           setTimeout (retry_fn sock pkt) 500, socket_send sock pkt ack2_cb]
      \<and> length (filter is_send (delivery readyState (Some sock) pkt (Some e) None)) = 2
      \<and> length (filter (send_ok (Some e) None)
                  (delivery readyState (Some sock) pkt (Some e) None)) = 1
      \<and> delivery readyState (Some sock) pkt (Some e) (Some e2) =
          [console_log (LPacket pkt), socket_send sock pkt (ack_cb sock pkt),
           setTimeout (retry_fn sock pkt) 500, socket_send sock pkt ack2_cb,
           console_log (LError e2)]
      \<and> length (filter (send_ok (Some e) (Some e2))
                  (delivery readyState (Some sock) pkt (Some e) (Some e2))) = 0)"
  by (simp add: delivery_def send_message_def ack_def ack2_def retry_send_def)

theorem send_message_retry_once_witness:
  "delivery all_closed (Some agent_sock) action_packet (Some SyntaxError) None = []
   \<and> delivery all_open (Some agent_sock) action_packet (Some SyntaxError) None =
       [console_log (LPacket action_packet),
        socket_send agent_sock action_packet (ack_cb agent_sock action_packet),
        setTimeout (retry_fn agent_sock action_packet) 500,
        socket_send agent_sock action_packet ack2_cb]
   \<and> delivery all_open (Some agent_sock) action_packet (Some SyntaxError) (Some (TypeError ''closed'')) =
       [console_log (LPacket action_packet),
        socket_send agent_sock action_packet (ack_cb agent_sock action_packet),
        setTimeout (retry_fn agent_sock action_packet) 500,
        socket_send agent_sock action_packet ack2_cb,
        console_log (LError (TypeError ''closed''))]"
proof -
  have closed: "all_closed agent_sock = 3" and opened: "all_open agent_sock \<noteq> 3"
    by (simp_all add: all_closed_def all_open_def)
  from send_message_retry_once [of all_closed action_packet "Some SyntaxError" None agent_sock]
  have "delivery all_closed (Some agent_sock) action_packet (Some SyntaxError) None = []"
    using closed by simp
  moreover from send_message_retry_once
    [of all_open action_packet None None agent_sock SyntaxError "TypeError ''closed''"]
  have "delivery all_open (Some agent_sock) action_packet (Some SyntaxError) None =
       [console_log (LPacket action_packet),
        socket_send agent_sock action_packet (ack_cb agent_sock action_packet),
        setTimeout (retry_fn agent_sock action_packet) 500,
        socket_send agent_sock action_packet ack2_cb]"
    and "delivery all_open (Some agent_sock) action_packet (Some SyntaxError) (Some (TypeError ''closed'')) =
       [console_log (LPacket action_packet),
        socket_send agent_sock action_packet (ack_cb agent_sock action_packet),
        setTimeout (retry_fn agent_sock action_packet) 500,
        socket_send agent_sock action_packet ack2_cb,
        console_log (LError (TypeError ''closed''))]"
    using opened by simp_all
  ultimately show ?thesis by simp
qed

subsection \<open>Replies to provider requests\<close>

text \<open>
  C5. A \<^verbatim>\<open>provider_details\<close> or \<^verbatim>\<open>initial_data_send\<close> packet whose key (\<^verbatim>\<open>data.request_id\<close>,
  or \<^verbatim>\<open>receiver_id\<close> when that is absent) has no entry in \<^verbatim>\<open>pending_provider_requests\<close>
  makes the \<^verbatim>\<open>try\<close> block throw a TypeError where the entry is used
  (\<^verbatim>\<open>res_obj.json\<close> of \<^verbatim>\<open>undefined\<close>): the lookup is not guarded. The exception is
  what the handler's general \<^verbatim>\<open>catch\<close> then logs; the state is unchanged and no response
  is written.
\<close>

theorem unknown_request_id_throws:
  assumes "is_reply pkt" and "correlation_key pkt = Inr k"
      and "map_of (pending_provider_requests s) k = None"
  shows "message_try sock (Inr pkt) s =
           (Some (TypeError ''Cannot read property json of undefined''), s,
            [console_log (LPacket pkt)])
       \<and> on_message sock (Inr pkt) s =
           (s, [console_log (LPacket pkt),
                console_log (LStr ''Transient error on message''),
                console_log (LError (TypeError ''Cannot read property json of undefined''))])"
  using assms by (simp add: message_try_reply on_message_def resolve_provider_request_def)

theorem unknown_request_id_throws_witness:
  "message_try system_sock (Inr reply_packet) initial_state =
     (Some (TypeError ''Cannot read property json of undefined''), initial_state,
      [console_log (LPacket reply_packet)])
   \<and> message_try system_sock (Inr reply_packet2) initial_state =
     (Some (TypeError ''Cannot read property json of undefined''), initial_state,
      [console_log (LPacket reply_packet2)])"
proof -
  have "is_reply reply_packet" "correlation_key reply_packet = Inr ''req-1''"
       "is_reply reply_packet2" "correlation_key reply_packet2 = Inr ''req-1''"
       "map_of (pending_provider_requests initial_state) ''req-1'' = None"
    by (simp_all add: is_reply_def reply_packet_def reply_packet2_def packet_type_defs
        correlation_key_def get_request_id_def initial_state_def)
  then show ?thesis
    using unknown_request_id_throws [of reply_packet "''req-1''" initial_state system_sock]
          unknown_request_id_throws [of reply_packet2 "''req-1''" initial_state system_sock]
    by simp
qed

subsection \<open>The status snapshot\<close>

lemma agent_statuses_loop_result:
  assumes "set ks \<subseteq> fst ` set agents"
  shows "\<exists>kvs. agent_statuses_loop agents ks acc = Inr kvs
           \<and> (\<forall>k. map_of kvs k =
                 (if k \<in> set ks then map_option (\<lambda>a. JStr (status a)) (map_of agents k)
                  else map_of acc k))
           \<and> fst ` set kvs = fst ` set acc \<union> set ks"
  using assms
proof (induction ks arbitrary: acc)
  case Nil
  then show ?case by simp
next
  case (Cons k ks)
  then obtain a where a: "map_of agents k = Some a"
    by (cases "map_of agents k") (auto simp: map_of_eq_None_iff)
  from Cons.prems have "set ks \<subseteq> fst ` set agents" by simp
  from Cons.IH [OF this, of "AList.update k (JStr (status a)) acc"]
  obtain kvs where kvs: "agent_statuses_loop agents ks (AList.update k (JStr (status a)) acc) = Inr kvs"
    "\<forall>k'. map_of kvs k' =
        (if k' \<in> set ks then map_option (\<lambda>a. JStr (status a)) (map_of agents k')
         else map_of (AList.update k (JStr (status a)) acc) k')"
    "fst ` set kvs = fst ` set (AList.update k (JStr (status a)) acc) \<union> set ks"
    by blast
  have "agent_statuses_loop agents (k # ks) acc = Inr kvs"
    using a kvs(1) by simp
  moreover have "\<forall>k'. map_of kvs k' =
      (if k' \<in> set (k # ks) then map_option (\<lambda>a. JStr (status a)) (map_of agents k')
       else map_of acc k')"
    using kvs(2) a by (auto simp: update_conv')
  moreover have "fst ` set kvs = fst ` set acc \<union> set (k # ks)"
    using kvs(3) by (auto simp: dom_update)
  ultimately show ?case by blast
qed

text \<open>
  C8. A \<^verbatim>\<open>request_status\<close> packet appends exactly one packet to
  \<^verbatim>\<open>mephisto_message_queue\<close> and changes nothing else: a \<^verbatim>\<open>return_status\<close> packet from
  the server identity to the system identity whose payload is an object with exactly
  the keys of \<^verbatim>\<open>agent_id_to_agent\<close>, each mapped to that agent's status.
\<close>

theorem status_request_enqueues_snapshot:
  assumes "packet_type pkt = PACKET_TYPE_REQUEST_AGENT_STATUS"
  shows "\<exists>kvs. on_message sock (Inr pkt) s =
           (s\<lparr>mephisto_message_queue :=
                mephisto_message_queue s @
                  [\<lparr>packet_type = PACKET_TYPE_RETURN_AGENT_STATUS, sender_id = SERVER_SOCKET_ID,
                    receiver_id = SYSTEM_SOCKET_ID, data = JObj kvs\<rparr>]\<rparr>,
            [console_log (LPacket pkt)])
         \<and> fst ` set kvs = fst ` set (agent_id_to_agent s)
         \<and> (\<forall>aid. map_of kvs aid =
               map_option (\<lambda>agent. JStr (status agent)) (map_of (agent_id_to_agent s) aid))"
proof -
  have "set (map fst (agent_id_to_agent s)) \<subseteq> fst ` set (agent_id_to_agent s)" by simp
  from agent_statuses_loop_result [OF this, of "[]"]
  obtain kvs where kvs:
    "agent_statuses_loop (agent_id_to_agent s) (map fst (agent_id_to_agent s)) [] = Inr kvs"
    "\<forall>k. map_of kvs k =
        (if k \<in> set (map fst (agent_id_to_agent s))
         then map_option (\<lambda>a. JStr (status a)) (map_of (agent_id_to_agent s) k)
         else None)"
    "fst ` set kvs = set (map fst (agent_id_to_agent s))"
    by auto
  have "on_message sock (Inr pkt) s =
           (s\<lparr>mephisto_message_queue :=
                mephisto_message_queue s @
                  [\<lparr>packet_type = PACKET_TYPE_RETURN_AGENT_STATUS, sender_id = SERVER_SOCKET_ID,
                    receiver_id = SYSTEM_SOCKET_ID, data = JObj kvs\<rparr>]\<rparr>,
            [console_log (LPacket pkt)])"
    using assms kvs(1)
    by (simp add: on_message_def message_try_def handle_get_agent_status_def)
  moreover have "fst ` set kvs = fst ` set (agent_id_to_agent s)"
    using kvs(3) by simp
  moreover have "\<forall>aid. map_of kvs aid =
               map_option (\<lambda>agent. JStr (status agent)) (map_of (agent_id_to_agent s) aid)"
  proof
    fix aid
    show "map_of kvs aid = map_option (\<lambda>agent. JStr (status agent)) (map_of (agent_id_to_agent s) aid)"
    proof (cases "aid \<in> fst ` set (agent_id_to_agent s)")
      case True
      then show ?thesis using kvs(2) by simp
    next
      case False
      then have "map_of (agent_id_to_agent s) aid = None" by (simp add: map_of_eq_None_iff)
      then show ?thesis using kvs(2) False by simp
    qed
  qed
  ultimately show ?thesis by blast
qed

theorem status_request_enqueues_snapshot_witness:
  "on_message system_sock (Inr status_request_packet) two_agents =
     (two_agents\<lparr>mephisto_message_queue :=
        [action_packet,
         \<lparr>packet_type = ''return_status'', sender_id = ''mephisto_server'',
          receiver_id = ''mephisto'',
          data = JObj [(''agent_1'', JStr ''init''), (''agent_2'', JStr ''done'')]\<rparr>]\<rparr>,
      [console_log (LPacket status_request_packet)])"
proof -
  have ty: "packet_type status_request_packet = PACKET_TYPE_REQUEST_AGENT_STATUS"
    by (simp add: status_request_packet_def PACKET_TYPE_REQUEST_AGENT_STATUS_def)
  from status_request_enqueues_snapshot [OF ty, of system_sock two_agents]
  obtain kvs where kvs:
    "on_message system_sock (Inr status_request_packet) two_agents =
       (two_agents\<lparr>mephisto_message_queue :=
          mephisto_message_queue two_agents @
            [\<lparr>packet_type = PACKET_TYPE_RETURN_AGENT_STATUS, sender_id = SERVER_SOCKET_ID,
              receiver_id = SYSTEM_SOCKET_ID, data = JObj kvs\<rparr>]\<rparr>,
        [console_log (LPacket status_request_packet)])"
    by blast
  have "agent_statuses_loop (agent_id_to_agent two_agents)
          (map fst (agent_id_to_agent two_agents)) [] =
        Inr [(''agent_1'', JStr ''init''), (''agent_2'', JStr ''done'')]"
    by (simp add: two_agents_def agent_one_def)
  then have "on_message system_sock (Inr status_request_packet) two_agents =
       (two_agents\<lparr>mephisto_message_queue :=
          mephisto_message_queue two_agents @
            [\<lparr>packet_type = PACKET_TYPE_RETURN_AGENT_STATUS, sender_id = SERVER_SOCKET_ID,
              receiver_id = SYSTEM_SOCKET_ID,
              data = JObj [(''agent_1'', JStr ''init''), (''agent_2'', JStr ''done'')]\<rparr>]\<rparr>,
        [console_log (LPacket status_request_packet)])"
    using ty by (simp add: on_message_def message_try_def handle_get_agent_status_def)
  with kvs have "mephisto_message_queue two_agents @
            [\<lparr>packet_type = PACKET_TYPE_RETURN_AGENT_STATUS, sender_id = SERVER_SOCKET_ID,
              receiver_id = SYSTEM_SOCKET_ID, data = JObj kvs\<rparr>] =
         mephisto_message_queue two_agents @
            [\<lparr>packet_type = PACKET_TYPE_RETURN_AGENT_STATUS, sender_id = SERVER_SOCKET_ID,
              receiver_id = SYSTEM_SOCKET_ID,
              data = JObj [(''agent_1'', JStr ''init''), (''agent_2'', JStr ''done'')]\<rparr>]"
    by (auto dest: arg_cong [where f = mephisto_message_queue])
  then have "kvs = [(''agent_1'', JStr ''init''), (''agent_2'', JStr ''done'')]"
    by simp
  with kvs show ?thesis
    by (simp add: two_agents_def PACKET_TYPE_RETURN_AGENT_STATUS_def SERVER_SOCKET_ID_def
        SYSTEM_SOCKET_ID_def)
qed

subsection \<open>The dispatch tick\<close>

lemma send_message_sent_to:
  "e \<in> set (send_message rs so p) \<Longrightarrow> sent_to sock e \<Longrightarrow> so = Some sock"
  by (auto simp: send_message_def split: option.splits if_splits)

lemma send_message_no_response:
  "e \<in> set (send_message rs so p) \<Longrightarrow> \<not> responds_to k e"
  by (auto simp: send_message_def split: option.splits if_splits)

lemma shift_all_eq: "shift_all queue acc = ([], acc @ queue)"
  by (induction queue arbitrary: acc) auto

lemma agent_loop_append:
  "agent_loop rs (ks1 @ ks2) s effs =
     (case agent_loop rs ks1 s effs of
        (Some e, s1, effs1) \<Rightarrow> (Some e, s1, effs1)
      | (None, s1, effs1) \<Rightarrow> agent_loop rs ks2 s1 effs1)"
  by (induction ks1 arbitrary: s effs)
     (auto simp: get_sendable_messages_def Let_def split: option.splits)

lemma agent_loop_Cons:
  "map_of (agent_id_to_agent s) k = Some a \<Longrightarrow>
   agent_loop rs (k # ks) s effs =
     agent_loop rs ks
       (s\<lparr>agent_id_to_agent := AList.update k (a\<lparr>unsent_messages := []\<rparr>) (agent_id_to_agent s)\<rparr>)
       (effs @ concat (map (send_message rs (map_of (agent_id_to_socket s) k)) (unsent_messages a)))"
  by (auto simp: get_sendable_messages_def Let_def)

lemma agent_loop_frame:
  "agent_loop rs ks s effs = (r, s', effs') \<Longrightarrow>
     agent_id_to_socket s' = agent_id_to_socket s
   \<and> socket_id_to_agent s' = socket_id_to_agent s
   \<and> mephisto_message_queue s' = mephisto_message_queue s
   \<and> main_thread_timeout s' = main_thread_timeout s
   \<and> mephisto_socket s' = mephisto_socket s
   \<and> pending_provider_requests s' = pending_provider_requests s
   \<and> pending_init_requests s' = pending_init_requests s
   \<and> (\<exists>E. effs' = effs @ E \<and> (\<forall>e \<in> set E. \<exists>so p. e \<in> set (send_message rs so p)))"
proof (induction ks arbitrary: s effs)
  case Nil
  then show ?case by simp
next
  case (Cons k ks)
  show ?case
  proof (cases "map_of (agent_id_to_agent s) k")
    case None
    with Cons.prems show ?thesis by simp
  next
    case (Some a)
    let ?s1 = "s\<lparr>agent_id_to_agent := AList.update k (a\<lparr>unsent_messages := []\<rparr>) (agent_id_to_agent s)\<rparr>"
    let ?B = "concat (map (send_message rs (map_of (agent_id_to_socket s) k)) (unsent_messages a))"
    from Cons.prems Some have "agent_loop rs ks ?s1 (effs @ ?B) = (r, s', effs')"
      by (simp only: agent_loop_Cons)
    from Cons.IH [OF this] obtain E where
      fr: "agent_id_to_socket s' = agent_id_to_socket s"
          "socket_id_to_agent s' = socket_id_to_agent s"
          "mephisto_message_queue s' = mephisto_message_queue s"
          "main_thread_timeout s' = main_thread_timeout s"
          "mephisto_socket s' = mephisto_socket s"
          "pending_provider_requests s' = pending_provider_requests s"
          "pending_init_requests s' = pending_init_requests s"
      and E: "effs' = (effs @ ?B) @ E" "\<forall>e \<in> set E. \<exists>so p. e \<in> set (send_message rs so p)"
      by auto
    have "\<forall>e \<in> set (?B @ E). \<exists>so p. e \<in> set (send_message rs so p)"
      using E(2) by auto
    with E(1) fr show ?thesis by auto
  qed
qed

lemma agent_loop_completes:
  assumes "\<forall>k \<in> set ks. map_of (agent_id_to_agent s) k \<noteq> None"
  shows "\<exists>s' E. agent_loop rs ks s effs = (None, s', effs @ E)
           \<and> (\<forall>k. map_of (agent_id_to_agent s') k =
                 (if k \<in> set ks
                  then map_option (\<lambda>a. a\<lparr>unsent_messages := []\<rparr>) (map_of (agent_id_to_agent s) k)
                  else map_of (agent_id_to_agent s) k))
           \<and> (\<forall>e \<in> set E. \<forall>sock. sent_to sock e \<longrightarrow>
                 (\<exists>k \<in> set ks. map_of (agent_id_to_socket s) k = Some sock
                    \<and> (\<exists>a. map_of (agent_id_to_agent s) k = Some a \<and> unsent_messages a \<noteq> [])))"
  using assms
proof (induction ks arbitrary: s effs)
  case Nil
  then show ?case by simp
next
  case (Cons k ks)
  from Cons.prems obtain a where a: "map_of (agent_id_to_agent s) k = Some a" by auto
  let ?s1 = "s\<lparr>agent_id_to_agent := AList.update k (a\<lparr>unsent_messages := []\<rparr>) (agent_id_to_agent s)\<rparr>"
  let ?B = "concat (map (send_message rs (map_of (agent_id_to_socket s) k)) (unsent_messages a))"
  have step: "agent_loop rs (k # ks) s effs = agent_loop rs ks ?s1 (effs @ ?B)"
    using a by (rule agent_loop_Cons)
  have agents1: "map_of (agent_id_to_agent ?s1) = (map_of (agent_id_to_agent s))(k \<mapsto> a\<lparr>unsent_messages := []\<rparr>)"
    by (simp add: update_conv')
  have "\<forall>k' \<in> set ks. map_of (agent_id_to_agent ?s1) k' \<noteq> None"
    using Cons.prems by (auto simp: update_conv')
  from Cons.IH [OF this, of "effs @ ?B"] obtain s' E where
    run: "agent_loop rs ks ?s1 (effs @ ?B) = (None, s', (effs @ ?B) @ E)"
    and agents': "\<forall>k'. map_of (agent_id_to_agent s') k' =
                 (if k' \<in> set ks
                  then map_option (\<lambda>a. a\<lparr>unsent_messages := []\<rparr>) (map_of (agent_id_to_agent ?s1) k')
                  else map_of (agent_id_to_agent ?s1) k')"
    and sends: "\<forall>e \<in> set E. \<forall>sock. sent_to sock e \<longrightarrow>
                 (\<exists>k' \<in> set ks. map_of (agent_id_to_socket ?s1) k' = Some sock
                    \<and> (\<exists>a'. map_of (agent_id_to_agent ?s1) k' = Some a' \<and> unsent_messages a' \<noteq> []))"
    by blast
  have 1: "agent_loop rs (k # ks) s effs = (None, s', effs @ (?B @ E))"
    using step run by simp
  have 2: "\<forall>k'. map_of (agent_id_to_agent s') k' =
                 (if k' \<in> set (k # ks)
                  then map_option (\<lambda>a. a\<lparr>unsent_messages := []\<rparr>) (map_of (agent_id_to_agent s) k')
                  else map_of (agent_id_to_agent s) k')"
    using agents' a by (auto simp: update_conv')
  have 3: "\<forall>e \<in> set (?B @ E). \<forall>sock. sent_to sock e \<longrightarrow>
                 (\<exists>k' \<in> set (k # ks). map_of (agent_id_to_socket s) k' = Some sock
                    \<and> (\<exists>a'. map_of (agent_id_to_agent s) k' = Some a' \<and> unsent_messages a' \<noteq> []))"
  proof (intro ballI allI impI)
    fix e sock assume e: "e \<in> set (?B @ E)" and st: "sent_to sock e"
    show "\<exists>k' \<in> set (k # ks). map_of (agent_id_to_socket s) k' = Some sock
                    \<and> (\<exists>a'. map_of (agent_id_to_agent s) k' = Some a' \<and> unsent_messages a' \<noteq> [])"
    proof (cases "e \<in> set ?B")
      case True
      then obtain p where "p \<in> set (unsent_messages a)"
        "e \<in> set (send_message rs (map_of (agent_id_to_socket s) k) p)" by auto
      with st have "map_of (agent_id_to_socket s) k = Some sock" "unsent_messages a \<noteq> []"
        by (auto dest: send_message_sent_to)
      with a show ?thesis by auto
    next
      case False
      with e have "e \<in> set E" by simp
      with sends st obtain k' a' where k': "k' \<in> set ks"
        "map_of (agent_id_to_socket ?s1) k' = Some sock"
        "map_of (agent_id_to_agent ?s1) k' = Some a'" "unsent_messages a' \<noteq> []"
        by blast
      have "k' \<noteq> k" using k'(3,4) by (auto simp: update_conv')
      then have "map_of (agent_id_to_agent s) k' = Some a'" using k'(3) by (simp add: update_conv')
      with k' show ?thesis by auto
    qed
  qed
  from 1 2 3 show ?case by blast
qed

lemma main_thread_after_loop:
  assumes "agent_loop rs (map fst (agent_id_to_socket s)) s [] = (None, s1, E)"
  shows "main_thread rs s =
           (None,
            s1\<lparr>mephisto_message_queue := [], main_thread_timeout := Some (Timeout main_thread_fn 50)\<rparr>,
            E @ concat (map (send_message rs (mephisto_socket s)) (mephisto_message_queue s))
              @ [setTimeout main_thread_fn 50])"
proof -
  from agent_loop_frame [OF assms]
  have "mephisto_message_queue s1 = mephisto_message_queue s" "mephisto_socket s1 = mephisto_socket s"
    by simp_all
  then show ?thesis
    using assms by (simp add: main_thread_def shift_all_eq Let_def)
qed

text \<open>
  C4. Take an agent with a socket in \<^verbatim>\<open>agent_id_to_socket\<close> and an agent object whose
  \<^verbatim>\<open>unsent_messages\<close> holds the packets pushed since the last tick, every key of
  \<^verbatim>\<open>agent_id_to_socket\<close> having an agent object. Then the tick completes; its effects
  contain, as one unbroken block, \<^verbatim>\<open>_send_message\<close> on that agent's socket for each of
  those packets in the order they were pushed; and the agent's list is empty afterwards,
  so a later push starts a new batch. If no other agent and not the system connection
  uses that socket, nothing else is sent on it during the tick: the block is exactly
  what the socket is given. On a socket that is not closed the block is, packet by
  packet, the log line and the send.
\<close>

theorem agent_queue_flushed_in_order:
  assumes sock: "map_of (agent_id_to_socket s) aid = Some sock"
      and agent: "map_of (agent_id_to_agent s) aid = Some agent"
      and known: "\<forall>k \<in> fst ` set (agent_id_to_socket s). map_of (agent_id_to_agent s) k \<noteq> None"
  shows "(\<exists>s' before after.
           main_thread readyState s =
             (None, s',
              before @ concat (map (send_message readyState (Some sock)) (unsent_messages agent)) @ after)
         \<and> map_of (agent_id_to_agent s') aid = Some (agent\<lparr>unsent_messages := []\<rparr>)
         \<and> ((\<forall>k sock'. k \<noteq> aid \<and> map_of (agent_id_to_socket s) k = Some sock' \<longrightarrow> sock' \<noteq> sock)
              \<and> mephisto_socket s \<noteq> Some sock
              \<longrightarrow> (\<forall>e \<in> set (before @ after). \<not> sent_to sock e)))
       \<and> (readyState sock \<noteq> 3 \<longrightarrow>
            concat (map (send_message readyState (Some sock)) (unsent_messages agent)) =
            concat (map (\<lambda>pkt. [console_log (LPacket pkt), socket_send sock pkt (ack_cb sock pkt)])
                      (unsent_messages agent)))"
proof -
  let ?ks = "map fst (agent_id_to_socket s)"
  let ?clear = "\<lambda>a. a\<lparr>unsent_messages := []\<rparr>"
  from sock have "aid \<in> set ?ks" by (auto dest: map_of_SomeD intro: rev_image_eqI)
  from split_list_first [OF this] obtain ks1 ks2 where ks: "?ks = ks1 @ aid # ks2" "aid \<notin> set ks1"
    by blast
  have known1: "\<forall>k \<in> set ks1. map_of (agent_id_to_agent s) k \<noteq> None"
   and known2: "\<forall>k \<in> set ks2. map_of (agent_id_to_agent s) k \<noteq> None"
  proof -
    have "set ks1 \<subseteq> set ?ks" "set ks2 \<subseteq> set ?ks" by (simp_all add: ks(1) subset_iff)
    then have "set ks1 \<subseteq> fst ` set (agent_id_to_socket s)" "set ks2 \<subseteq> fst ` set (agent_id_to_socket s)"
      by simp_all
    with known show "\<forall>k \<in> set ks1. map_of (agent_id_to_agent s) k \<noteq> None"
      and "\<forall>k \<in> set ks2. map_of (agent_id_to_agent s) k \<noteq> None"
      by blast+
  qed
  from agent_loop_completes [OF known1, of readyState "[]"] obtain s1 E1 where
    l1: "agent_loop readyState ks1 s [] = (None, s1, E1)"
    and a1: "\<forall>k. map_of (agent_id_to_agent s1) k =
                 (if k \<in> set ks1 then map_option ?clear (map_of (agent_id_to_agent s) k)
                  else map_of (agent_id_to_agent s) k)"
    and t1: "\<forall>e \<in> set E1. \<forall>sock. sent_to sock e \<longrightarrow>
                 (\<exists>k \<in> set ks1. map_of (agent_id_to_socket s) k = Some sock
                    \<and> (\<exists>a. map_of (agent_id_to_agent s) k = Some a \<and> unsent_messages a \<noteq> []))"
    by auto
  from agent_loop_frame [OF l1] have socks1: "agent_id_to_socket s1 = agent_id_to_socket s"
    and ms1: "mephisto_socket s1 = mephisto_socket s" by simp_all
  have agent1: "map_of (agent_id_to_agent s1) aid = Some agent"
    using a1 ks(2) agent by simp
  let ?s2 = "s1\<lparr>agent_id_to_agent := AList.update aid (?clear agent) (agent_id_to_agent s1)\<rparr>"
  let ?B = "concat (map (send_message readyState (Some sock)) (unsent_messages agent))"
  have step: "agent_loop readyState (aid # ks2) s1 E1 = agent_loop readyState ks2 ?s2 (E1 @ ?B)"
    using agent_loop_Cons [OF agent1, of readyState ks2 E1] sock socks1 by simp
  have agents2: "map_of (agent_id_to_agent ?s2) = (map_of (agent_id_to_agent s1))(aid \<mapsto> ?clear agent)"
    by (simp add: update_conv')
  have "\<forall>k \<in> set ks2. map_of (agent_id_to_agent ?s2) k \<noteq> None"
    using known2 a1 by (auto simp: update_conv')
  from agent_loop_completes [OF this, of readyState "E1 @ ?B"] obtain s3 E3 where
    l3: "agent_loop readyState ks2 ?s2 (E1 @ ?B) = (None, s3, (E1 @ ?B) @ E3)"
    and a3: "\<forall>k. map_of (agent_id_to_agent s3) k =
                 (if k \<in> set ks2 then map_option ?clear (map_of (agent_id_to_agent ?s2) k)
                  else map_of (agent_id_to_agent ?s2) k)"
    and t3: "\<forall>e \<in> set E3. \<forall>sock. sent_to sock e \<longrightarrow>
                 (\<exists>k \<in> set ks2. map_of (agent_id_to_socket ?s2) k = Some sock
                    \<and> (\<exists>a. map_of (agent_id_to_agent ?s2) k = Some a \<and> unsent_messages a \<noteq> []))"
    by blast
  have loop: "agent_loop readyState ?ks s [] = (None, s3, E1 @ ?B @ E3)"
    using l1 step l3 by (simp add: ks(1) agent_loop_append)
  let ?S = "concat (map (send_message readyState (mephisto_socket s)) (mephisto_message_queue s))
              @ [setTimeout main_thread_fn 50]"
  let ?s' = "s3\<lparr>mephisto_message_queue := [], main_thread_timeout := Some (Timeout main_thread_fn 50)\<rparr>"
  have tick: "main_thread readyState s = (None, ?s', E1 @ ?B @ (E3 @ ?S))"
    using main_thread_after_loop [OF loop] by simp
  have cleared: "map_of (agent_id_to_agent ?s') aid = Some (?clear agent)"
    using a3 by (simp add: update_conv')
  have excl: "\<forall>e \<in> set (E1 @ (E3 @ ?S)). \<not> sent_to sock e"
    if ex: "\<forall>k sock'. k \<noteq> aid \<and> map_of (agent_id_to_socket s) k = Some sock' \<longrightarrow> sock' \<noteq> sock"
    and ms: "mephisto_socket s \<noteq> Some sock"
  proof
    have only_aid: "k = aid" if "map_of (agent_id_to_socket s) k = Some sock" for k
      using ex that by auto
    fix e assume "e \<in> set (E1 @ (E3 @ ?S))"
    then consider "e \<in> set E1" | "e \<in> set E3"
      | "e \<in> set (concat (map (send_message readyState (mephisto_socket s)) (mephisto_message_queue s)))"
      | "e = setTimeout main_thread_fn 50" by auto
    then show "\<not> sent_to sock e"
    proof cases
      case 1
      show ?thesis
      proof
        assume "sent_to sock e"
        with t1 1 obtain k where k: "k \<in> set ks1" "map_of (agent_id_to_socket s) k = Some sock" by blast
        from only_aid [OF k(2)] k(1) ks(2) show False by simp
      qed
    next
      case 2
      show ?thesis
      proof
        assume "sent_to sock e"
        with t3 2 obtain k a where k: "k \<in> set ks2" "map_of (agent_id_to_socket ?s2) k = Some sock"
          "map_of (agent_id_to_agent ?s2) k = Some a" "unsent_messages a \<noteq> []" by blast
        have "k \<noteq> aid" using k(3,4) by (auto simp: update_conv')
        moreover have "map_of (agent_id_to_socket s) k = Some sock" using k(2) socks1 by simp
        ultimately show False using only_aid by simp
      qed
    next
      case 3
      then obtain p where "e \<in> set (send_message readyState (mephisto_socket s) p)" by auto
      then show ?thesis using ms by (auto dest: send_message_sent_to)
    next
      case 4
      then show ?thesis by simp
    qed
  qed
  have "(\<forall>k sock'. k \<noteq> aid \<and> map_of (agent_id_to_socket s) k = Some sock' \<longrightarrow> sock' \<noteq> sock)
          \<and> mephisto_socket s \<noteq> Some sock
        \<longrightarrow> (\<forall>e \<in> set (E1 @ (E3 @ ?S)). \<not> sent_to sock e)"
    by (intro impI, elim conjE, rule excl)
  with tick cleared
  have "main_thread readyState s = (None, ?s', E1 @ ?B @ (E3 @ ?S))
      \<and> map_of (agent_id_to_agent ?s') aid = Some (?clear agent)
      \<and> ((\<forall>k sock'. k \<noteq> aid \<and> map_of (agent_id_to_socket s) k = Some sock' \<longrightarrow> sock' \<noteq> sock)
            \<and> mephisto_socket s \<noteq> Some sock
          \<longrightarrow> (\<forall>e \<in> set (E1 @ (E3 @ ?S)). \<not> sent_to sock e))"
    by (intro conjI)
  then have flushed: "\<exists>s' before after.
           main_thread readyState s =
             (None, s',
              before @ concat (map (send_message readyState (Some sock)) (unsent_messages agent)) @ after)
         \<and> map_of (agent_id_to_agent s') aid = Some (agent\<lparr>unsent_messages := []\<rparr>)
         \<and> ((\<forall>k sock'. k \<noteq> aid \<and> map_of (agent_id_to_socket s) k = Some sock' \<longrightarrow> sock' \<noteq> sock)
              \<and> mephisto_socket s \<noteq> Some sock
              \<longrightarrow> (\<forall>e \<in> set (before @ after). \<not> sent_to sock e))"
    by - (rule exI, rule exI, rule exI)
  have sends: "readyState sock \<noteq> 3 \<longrightarrow>
            concat (map (send_message readyState (Some sock)) (unsent_messages agent)) =
            concat (map (\<lambda>pkt. [console_log (LPacket pkt), socket_send sock pkt (ack_cb sock pkt)])
                      (unsent_messages agent))"
  proof
    assume "readyState sock \<noteq> 3"
    then have "send_message readyState (Some sock) =
        (\<lambda>pkt. [console_log (LPacket pkt), socket_send sock pkt (ack_cb sock pkt)])"
      by (simp add: send_message_def fun_eq_iff)
    then show "concat (map (send_message readyState (Some sock)) (unsent_messages agent)) =
            concat (map (\<lambda>pkt. [console_log (LPacket pkt), socket_send sock pkt (ack_cb sock pkt)])
                      (unsent_messages agent))"
      by simp
  qed
  from flushed sends show ?thesis by (rule conjI)
qed

theorem agent_queue_flushed_in_order_witness:
  "\<exists>s' before after.
     main_thread all_open two_agents =
       (None, s',
        before @
        [console_log (LPacket action_packet2),
         socket_send agent_sock action_packet2 (ack_cb agent_sock action_packet2),
         console_log (LPacket action_packet),
         socket_send agent_sock action_packet (ack_cb agent_sock action_packet)]
          @ after)
     \<and> map_of (agent_id_to_agent s') ''agent_1'' = Some (agent_one\<lparr>unsent_messages := []\<rparr>)
     \<and> (\<forall>e \<in> set (before @ after). \<not> sent_to agent_sock e)"
proof -
  have sock: "map_of (agent_id_to_socket two_agents) ''agent_1'' = Some agent_sock"
    and agent: "map_of (agent_id_to_agent two_agents) ''agent_1'' = Some agent_one"
    and known: "\<forall>k \<in> fst ` set (agent_id_to_socket two_agents).
                  map_of (agent_id_to_agent two_agents) k \<noteq> None"
    by (simp_all add: two_agents_def)
  have alone: "(\<forall>k sock'. k \<noteq> ''agent_1'' \<and> map_of (agent_id_to_socket two_agents) k = Some sock'
                  \<longrightarrow> sock' \<noteq> agent_sock)
               \<and> mephisto_socket two_agents \<noteq> Some agent_sock"
    by (simp add: two_agents_def agent_sock_def other_sock_def system_sock_def)
  from agent_queue_flushed_in_order [OF sock agent known, of all_open]
  obtain s' before after where
    "main_thread all_open two_agents =
       (None, s',
        before @ concat (map (send_message all_open (Some agent_sock)) (unsent_messages agent_one))
          @ after)"
    "map_of (agent_id_to_agent s') ''agent_1'' = Some (agent_one\<lparr>unsent_messages := []\<rparr>)"
    "(\<forall>k sock'. k \<noteq> ''agent_1'' \<and> map_of (agent_id_to_socket two_agents) k = Some sock'
          \<longrightarrow> sock' \<noteq> agent_sock)
       \<and> mephisto_socket two_agents \<noteq> Some agent_sock
     \<longrightarrow> (\<forall>e \<in> set (before @ after). \<not> sent_to agent_sock e)"
    by blast
  with alone have
    "main_thread all_open two_agents =
       (None, s',
        before @
        [console_log (LPacket action_packet2),
         socket_send agent_sock action_packet2 (ack_cb agent_sock action_packet2),
         console_log (LPacket action_packet),
         socket_send agent_sock action_packet (ack_cb agent_sock action_packet)]
          @ after)
     \<and> map_of (agent_id_to_agent s') ''agent_1'' = Some (agent_one\<lparr>unsent_messages := []\<rparr>)
     \<and> (\<forall>e \<in> set (before @ after). \<not> sent_to agent_sock e)"
    by (simp add: agent_one_def send_message_def all_open_def)
  then show ?thesis
    by - (rule exI, rule exI, rule exI)
qed

subsection \<open>Responses to provider requests over a run\<close>

lemma on_message_reply_found:
  assumes "is_reply pkt" and "correlation_key pkt = Inr k"
      and "map_of (pending_provider_requests s) k = Some res_obj"
  shows "on_message sock (Inr pkt) s =
           (s\<lparr>pending_provider_requests := AList.delete k (pending_provider_requests s)\<rparr>,
            [console_log (LPacket pkt), res_json res_obj pkt])"
  using assms by (simp add: message_try_reply on_message_def resolve_provider_request_def)

lemma on_message_reply_missing:
  assumes "is_reply pkt" and "correlation_key pkt = Inr k"
      and "map_of (pending_provider_requests s) k = None"
  shows "on_message sock (Inr pkt) s =
           (s, [console_log (LPacket pkt),
                console_log (LStr ''Transient error on message''),
                console_log (LError (TypeError ''Cannot read property json of undefined''))])"
  using assms by (simp add: message_try_reply on_message_def resolve_provider_request_def)

lemma on_message_reply_no_key:
  assumes "is_reply pkt" and "correlation_key pkt = Inl err"
  shows "on_message sock (Inr pkt) s =
           (s, [console_log (LPacket pkt),
                console_log (LStr ''Transient error on message''),
                console_log (LError err)])"
  using assms by (simp add: message_try_reply on_message_def resolve_provider_request_def)

lemma on_message_other:
  assumes "\<not> is_reply pkt" and "on_message sock (Inr pkt) s = (s1, effs1)"
  shows "pending_provider_requests s1 = pending_provider_requests s
       \<and> (\<forall>e \<in> set effs1. \<forall>k. \<not> responds_to k e)"
proof -
  consider "packet_type pkt = PACKET_TYPE_REQUEST_AGENT_STATUS"
    | "packet_type pkt = PACKET_TYPE_AGENT_ACTION"
    | "packet_type pkt = PACKET_TYPE_ALIVE" "sender_id pkt = SYSTEM_SOCKET_ID"
    | "packet_type pkt = PACKET_TYPE_ALIVE" "sender_id pkt \<noteq> SYSTEM_SOCKET_ID"
    | "packet_type pkt \<noteq> PACKET_TYPE_REQUEST_AGENT_STATUS" "packet_type pkt \<noteq> PACKET_TYPE_AGENT_ACTION"
      "packet_type pkt \<noteq> PACKET_TYPE_ALIVE"
    by blast
  then show ?thesis
  proof cases
    case 1
    with assms(2) show ?thesis
      by (auto simp: on_message_def message_try_def handle_get_agent_status_def split: sum.splits)
  next
    case 2
    with assms(2) show ?thesis by (auto simp: on_message_def message_try_agent_action)
  next
    case 3
    then have "system_alive pkt" by (simp add: system_alive_def)
    with assms(2) show ?thesis
      by (auto simp: on_message_def message_try_system_alive split: if_splits)
  next
    case 4
    with assms(2) show ?thesis by (auto simp: on_message_def message_try_agent_alive)
  next
    case 5
    with assms show ?thesis
      by (auto simp: on_message_def message_try_def is_reply_def)
  qed
qed

lemma main_thread_effects:
  assumes "main_thread rs s = (r, s', E)"
  shows "pending_provider_requests s' = pending_provider_requests s
       \<and> (\<forall>e \<in> set E. (\<exists>so p. e \<in> set (send_message rs so p)) \<or> e = setTimeout main_thread_fn 50)"
proof -
  obtain r1 s1 E1 where loop: "agent_loop rs (map fst (agent_id_to_socket s)) s [] = (r1, s1, E1)"
    by (cases "agent_loop rs (map fst (agent_id_to_socket s)) s []") auto
  from agent_loop_frame [OF loop]
  have fr: "pending_provider_requests s1 = pending_provider_requests s"
    and E1: "\<forall>e \<in> set E1. \<exists>so p. e \<in> set (send_message rs so p)"
    by auto
  show ?thesis
  proof (cases r1)
    case None
    with loop main_thread_after_loop [of rs s s1 E1] assms
    have "s' = s1\<lparr>mephisto_message_queue := [], main_thread_timeout := Some (Timeout main_thread_fn 50)\<rparr>"
      "E = E1 @ concat (map (send_message rs (mephisto_socket s)) (mephisto_message_queue s))
             @ [setTimeout main_thread_fn 50]"
      by auto
    with fr E1 show ?thesis by auto
  next
    case (Some err)
    with loop assms have "s' = s1" "E = E1" by (auto simp: main_thread_def)
    with fr E1 show ?thesis by auto
  qed
qed

lemma handle_event_responses:
  assumes "handle_event ev s = (r1, s1, effs1)"
  shows "length (filter (responds_to k) effs1) \<le> 1
       \<and> (filter (responds_to k) effs1 \<noteq> [] \<longrightarrow>
            map_of (pending_provider_requests s) k \<noteq> None
          \<and> map_of (pending_provider_requests s1) k = None
          \<and> brings_reply k ev)
       \<and> (map_of (pending_provider_requests s1) k \<noteq> None \<longrightarrow>
            map_of (pending_provider_requests s) k \<noteq> None \<or> k \<in> set (request_ids [ev]))"
proof (cases ev)
  case (ws_message sock parsed)
  show ?thesis
  proof (cases parsed)
    case (Inl err)
    with ws_message assms show ?thesis
      by (auto simp: handle_event_def on_message_def message_try_def)
  next
    case (Inr pkt)
    from assms have om: "on_message sock (Inr pkt) s = (s1, effs1)"
      by (auto simp: handle_event_def ws_message Inr split: prod.splits)
    show ?thesis
    proof (cases "is_reply pkt")
      case False
      from on_message_other [OF False om] show ?thesis
        by (auto simp: filter_empty_conv)
    next
      case True
      show ?thesis
      proof (cases "correlation_key pkt")
        case (Inl err)
        from om on_message_reply_no_key [OF True Inl, of sock s] show ?thesis by auto
      next
        case key: (Inr k')
        show ?thesis
        proof (cases "map_of (pending_provider_requests s) k'")
          case None
          from om on_message_reply_missing [OF True key None, of sock] show ?thesis by auto
        next
          case (Some res_obj)
          from om on_message_reply_found [OF True key Some, of sock]
          have "s1 = s\<lparr>pending_provider_requests := AList.delete k' (pending_provider_requests s)\<rparr>"
            "effs1 = [console_log (LPacket pkt), res_json res_obj pkt]"
            by auto
          with True key Some show ?thesis
            by (auto simp: ws_message Inr delete_conv')
        qed
      qed
    qed
  qed
next
  case (ws_connection sock)
  with assms show ?thesis by (auto simp: handle_event_def on_connection_def)
next
  case (ws_disconnect sock)
  with assms show ?thesis by (auto simp: handle_event_def on_disconnect_def)
next
  case (ws_error sock err)
  with assms show ?thesis by (auto simp: handle_event_def on_error_def)
next
  case (timer_main_thread rs)
  with assms have "main_thread rs s = (r1, s1, effs1)" by (simp add: handle_event_def)
  from main_thread_effects [OF this] have
    "pending_provider_requests s1 = pending_provider_requests s"
    "\<forall>e \<in> set effs1. \<not> responds_to k e"
    by (auto dest: send_message_no_response)
  then show ?thesis by (auto simp: filter_empty_conv)
next
  case (http_post route rs rid pd res_obj)
  with assms have "s1 = s\<lparr>pending_provider_requests := AList.update rid res_obj (pending_provider_requests s)\<rparr>"
    "effs1 = send_message rs (mephisto_socket s) (request_packet_of route rid pd)"
    by (auto simp: handle_event_def app_post_eq)
  moreover have "\<forall>e \<in> set (send_message rs (mephisto_socket s) (request_packet_of route rid pd)).
                   \<not> responds_to k e"
    by (auto dest: send_message_no_response)
  ultimately show ?thesis
    by (auto simp: filter_empty_conv update_conv' http_post)
qed

lemma run_responses:
  assumes "distinct (request_ids evs)"
      and "\<forall>k \<in> set (request_ids evs). map_of (pending_provider_requests s) k = None"
      and "run evs s = (r, s', effs)"
  shows "length (filter (responds_to k) effs) \<le> 1
       \<and> (map_of (pending_provider_requests s) k = None \<and> k \<notin> set (request_ids evs)
            \<longrightarrow> filter (responds_to k) effs = [])"
  using assms
proof (induction evs arbitrary: s r s' effs)
  case Nil
  then show ?case by simp
next
  case (Cons ev evs)
  obtain r1 s1 effs1 where step: "handle_event ev s = (r1, s1, effs1)"
    by (cases "handle_event ev s") auto
  note ev = handle_event_responses [OF step, of k]
  have ids: "request_ids (ev # evs) = request_ids [ev] @ request_ids evs"
    by (cases ev) simp_all
  have not_both: "request_ids [ev] = []" if "brings_reply k' ev" for k'
    using that by (cases ev) simp_all
  show ?case
  proof (cases r1)
    case (Some err)
    with step Cons.prems(3) have "effs = effs1" by simp
    with ev Cons.prems(2) show ?thesis by (auto simp: ids)
  next
    case None
    obtain effs2 where rest: "run evs s1 = (r, s', effs2)" and effs: "effs = effs1 @ effs2"
      using step None Cons.prems(3) by (auto split: prod.splits)
    have d2: "distinct (request_ids evs)" using Cons.prems(1) by (simp add: ids)
    have fresh2: "\<forall>k' \<in> set (request_ids evs). map_of (pending_provider_requests s1) k' = None"
    proof
      fix k' assume k': "k' \<in> set (request_ids evs)"
      then have "map_of (pending_provider_requests s) k' = None" "k' \<notin> set (request_ids [ev])"
        using Cons.prems(1,2) by (auto simp: ids)
      with handle_event_responses [OF step, of k']
      show "map_of (pending_provider_requests s1) k' = None" by blast
    qed
    note IH = Cons.IH [OF d2 fresh2 rest]
    show ?thesis
    proof (cases "filter (responds_to k) effs1 = []")
      case True
      have "map_of (pending_provider_requests s1) k = None \<and> k \<notin> set (request_ids evs)"
        if "map_of (pending_provider_requests s) k = None" "k \<notin> set (request_ids (ev # evs))"
        using that ev by (auto simp: ids)
      with True IH show ?thesis by (auto simp: effs)
    next
      case False
      with ev have k: "map_of (pending_provider_requests s) k \<noteq> None"
        "map_of (pending_provider_requests s1) k = None" "brings_reply k ev"
        "length (filter (responds_to k) effs1) \<le> 1" by auto
      from k(1) Cons.prems(2) have "k \<notin> set (request_ids evs)" by (auto simp: ids)
      with k(2) IH have "filter (responds_to k) effs2 = []" by simp
      with k show ?thesis by (auto simp: effs)
    qed
  qed
qed

lemma run_response_needs_reply:
  assumes "run evs s = (r, s', effs)" and "e \<in> set effs" and "responds_to k e"
  shows "\<exists>ev \<in> set evs. brings_reply k ev"
  using assms
proof (induction evs arbitrary: s r s' effs)
  case Nil
  then show ?case by simp
next
  case (Cons ev evs)
  obtain r1 s1 effs1 where step: "handle_event ev s = (r1, s1, effs1)"
    by (cases "handle_event ev s") auto
  show ?case
  proof (cases "e \<in> set effs1")
    case True
    with Cons.prems(3) have "filter (responds_to k) effs1 \<noteq> []" by (auto simp: filter_empty_conv)
    with handle_event_responses [OF step, of k] show ?thesis by simp
  next
    case False
    with step Cons.prems(1,2) obtain effs2 where "run evs s1 = (r, s', effs2)" "e \<in> set effs2"
      by (cases r1) (auto split: prod.splits)
    from Cons.IH [OF this Cons.prems(3)] show ?thesis by simp
  qed
qed

subsection \<open>Registering the system connection\<close>

lemma timeout_update_same:
  "main_thread_timeout s = Some t \<Longrightarrow>
   s\<lparr>mephisto_socket := x, main_thread_timeout := Some t\<rparr> = s\<lparr>mephisto_socket := x\<rparr>"
  by (cases s) simp

lemma on_message_system_alive:
  "system_alive pkt \<Longrightarrow>
   on_message sock (Inr pkt) s =
     (if main_thread_timeout s = None then
        (s\<lparr>mephisto_socket := Some sock,
           main_thread_timeout := Some (Timeout main_thread_fn 50)\<rparr>,
         [console_log (LPacket pkt), console_log (LStr ''launching main thread''),
          setTimeout main_thread_fn 50])
      else (s\<lparr>mephisto_socket := Some sock\<rparr>, [console_log (LPacket pkt)]))"
  by (simp add: on_message_def message_try_system_alive)

lemma run_registrations:
  assumes "regs \<noteq> []" and "\<forall>r \<in> set regs. system_alive (snd r)"
  shows "\<exists>t effs. run (registrations regs) s =
           (None, s\<lparr>mephisto_socket := Some (fst (last regs)), main_thread_timeout := Some t\<rparr>, effs)
         \<and> length (filter starts_loop effs) = (if main_thread_timeout s = None then 1 else 0)"
  using assms
proof (induction regs arbitrary: s rule: list_nonempty_induct)
  case (single r)
  obtain sock pkt where r: "r = (sock, pkt)" by (cases r)
  with single have "system_alive pkt" by simp
  show ?case
  proof (cases "main_thread_timeout s")
    case None
    with \<open>system_alive pkt\<close> show ?thesis
      by (auto simp: r registrations_def handle_event_def on_message_system_alive starts_loop_def)
  next
    case (Some t)
    with \<open>system_alive pkt\<close> timeout_update_same [OF Some, of "Some sock"] show ?thesis
      by (auto simp: r registrations_def handle_event_def on_message_system_alive starts_loop_def
          intro!: exI [of _ t])
  qed
next
  case (cons r regs)
  obtain sock pkt where r: "r = (sock, pkt)" by (cases r)
  with cons.prems have alive: "system_alive pkt" by simp
  obtain s1 effs1 where step: "on_message sock (Inr pkt) s = (s1, effs1)"
    by (cases "on_message sock (Inr pkt) s")
  have s1: "main_thread_timeout s1 \<noteq> None"
    "\<And>t sock'. s1\<lparr>mephisto_socket := Some sock', main_thread_timeout := Some t\<rparr> =
        s\<lparr>mephisto_socket := Some sock', main_thread_timeout := Some t\<rparr>"
    "length (filter starts_loop effs1) = (if main_thread_timeout s = None then 1 else 0)"
    using step alive
    by (auto simp: on_message_system_alive starts_loop_def split: if_splits)
  from cons.prems have "\<forall>r \<in> set regs. system_alive (snd r)" by simp
  from cons.IH [OF this, of s1] obtain t effs where
    rest: "run (registrations regs) s1 =
        (None, s1\<lparr>mephisto_socket := Some (fst (last regs)), main_thread_timeout := Some t\<rparr>, effs)"
    "length (filter starts_loop effs) = 0"
    using s1(1) by auto
  have "run (registrations (r # regs)) s =
          (None, s\<lparr>mephisto_socket := Some (fst (last (r # regs))), main_thread_timeout := Some t\<rparr>,
           effs1 @ effs)"
    using step rest(1) cons.hyps s1(2)
    by (simp add: r registrations_def handle_event_def)
  moreover have "length (filter starts_loop (effs1 @ effs)) = (if main_thread_timeout s = None then 1 else 0)"
    using s1(3) rest(2) by simp
  ultimately show ?case by blast
qed

lemma send_message_open:
  "rs sock \<noteq> 3 \<Longrightarrow>
   send_message rs (Some sock) = (\<lambda>pkt. [console_log (LPacket pkt), socket_send sock pkt (ack_cb sock pkt)])"
  by (simp add: send_message_def fun_eq_iff)

lemma agent_loop_sockets:
  "agent_loop rs ks s effs = (r, s', effs') \<Longrightarrow>
     \<exists>E. effs' = effs @ E
        \<and> (\<forall>e \<in> set E. \<forall>sock. sent_to sock e \<longrightarrow>
              (\<exists>k. map_of (agent_id_to_socket s) k = Some sock))"
proof (induction ks arbitrary: s effs)
  case Nil
  then show ?case by simp
next
  case (Cons k ks)
  show ?case
  proof (cases "map_of (agent_id_to_agent s) k")
    case None
    with Cons.prems show ?thesis by simp
  next
    case (Some a)
    let ?s1 = "s\<lparr>agent_id_to_agent := AList.update k (a\<lparr>unsent_messages := []\<rparr>) (agent_id_to_agent s)\<rparr>"
    let ?B = "concat (map (send_message rs (map_of (agent_id_to_socket s) k)) (unsent_messages a))"
    from Cons.prems Some have "agent_loop rs ks ?s1 (effs @ ?B) = (r, s', effs')"
      by (simp only: agent_loop_Cons)
    from Cons.IH [OF this] obtain E where
      E: "effs' = (effs @ ?B) @ E"
      and sends: "\<forall>e \<in> set E. \<forall>sock. sent_to sock e \<longrightarrow>
                    (\<exists>k. map_of (agent_id_to_socket s) k = Some sock)"
      by auto
    have "\<forall>e \<in> set (?B @ E). \<forall>sock. sent_to sock e \<longrightarrow>
            (\<exists>k. map_of (agent_id_to_socket s) k = Some sock)"
    proof (intro ballI allI impI)
      fix e sock assume e: "e \<in> set (?B @ E)" and st: "sent_to sock e"
      show "\<exists>k. map_of (agent_id_to_socket s) k = Some sock"
      proof (cases "e \<in> set ?B")
        case True
        then obtain p where "e \<in> set (send_message rs (map_of (agent_id_to_socket s) k) p)"
          by auto
        from send_message_sent_to [OF this st] show ?thesis ..
      next
        case False
        with e have "e \<in> set E" by simp
        with sends st show ?thesis by blast
      qed
    qed
    with E show ?thesis by simp
  qed
qed

lemma main_thread_sockets:
  assumes "e \<in> set (snd (snd (main_thread rs s)))" and "sent_to sock e"
  shows "(\<exists>k. map_of (agent_id_to_socket s) k = Some sock) \<or> mephisto_socket s = Some sock"
proof -
  obtain r1 s1 E1 where loop: "agent_loop rs (map fst (agent_id_to_socket s)) s [] = (r1, s1, E1)"
    by (cases "agent_loop rs (map fst (agent_id_to_socket s)) s []") auto
  from agent_loop_sockets [OF loop]
  have E1: "\<forall>e \<in> set E1. \<forall>sock. sent_to sock e \<longrightarrow>
              (\<exists>k. map_of (agent_id_to_socket s) k = Some sock)"
    by simp
  show ?thesis
  proof (cases r1)
    case (Some err)
    with loop have "snd (snd (main_thread rs s)) = E1" by (simp add: main_thread_def)
    with assms E1 show ?thesis by auto
  next
    case None
    with loop main_thread_after_loop [of rs s s1 E1]
    have "snd (snd (main_thread rs s)) =
            E1 @ concat (map (send_message rs (mephisto_socket s)) (mephisto_message_queue s))
              @ [setTimeout main_thread_fn 50]"
      by simp
    with assms(1) consider "e \<in> set E1"
      | p where "e \<in> set (send_message rs (mephisto_socket s) p)"
      | "e = setTimeout main_thread_fn 50"
      by auto
    then show ?thesis
    proof cases
      case 1
      with E1 assms(2) show ?thesis by blast
    next
      case 2
      from send_message_sent_to [OF 2 assms(2)] show ?thesis ..
    next
      case 3
      with assms(2) show ?thesis by simp
    qed
  qed
qed

lemma tick_after_registration:
  assumes known: "\<forall>k \<in> fst ` set (agent_id_to_socket s). map_of (agent_id_to_agent s) k \<noteq> None"
  shows "\<exists>s'' agent_part.
           main_thread rs (s\<lparr>mephisto_socket := Some latest, main_thread_timeout := Some t\<rparr>) =
             (None, s'',
              agent_part @ concat (map (send_message rs (Some latest)) (mephisto_message_queue s))
                @ [setTimeout main_thread_fn 50])
         \<and> mephisto_message_queue s'' = []
         \<and> (\<forall>e \<in> set agent_part. \<forall>sock. sent_to sock e \<longrightarrow>
               (\<exists>k a. map_of (agent_id_to_socket s) k = Some sock
                  \<and> map_of (agent_id_to_agent s) k = Some a \<and> unsent_messages a \<noteq> []))
         \<and> (agent_id_to_socket s = [] \<longrightarrow> agent_part = [])
         \<and> (rs latest \<noteq> 3 \<longrightarrow>
               main_thread rs (s\<lparr>mephisto_socket := Some latest, main_thread_timeout := Some t\<rparr>) =
                 (None, s'',
                  agent_part
                    @ concat (map (\<lambda>pkt. [console_log (LPacket pkt),
                                            socket_send latest pkt (ack_cb latest pkt)])
                                (mephisto_message_queue s))
                    @ [setTimeout main_thread_fn 50]))"
proof -
  let ?s' = "s\<lparr>mephisto_socket := Some latest, main_thread_timeout := Some t\<rparr>"
  let ?ks = "map fst (agent_id_to_socket ?s')"
  let ?S = "concat (map (send_message rs (Some latest)) (mephisto_message_queue s))"
  have "\<forall>k \<in> set ?ks. map_of (agent_id_to_agent ?s') k \<noteq> None"
    using known by simp
  from agent_loop_completes [OF this, of rs "[]"] obtain s1 E1 where
    loop: "agent_loop rs ?ks ?s' [] = (None, s1, E1)"
    and sends: "\<forall>e \<in> set E1. \<forall>sock. sent_to sock e \<longrightarrow>
                 (\<exists>k \<in> set ?ks. map_of (agent_id_to_socket ?s') k = Some sock
                    \<and> (\<exists>a. map_of (agent_id_to_agent ?s') k = Some a \<and> unsent_messages a \<noteq> []))"
    by auto
  let ?s'' = "s1\<lparr>mephisto_message_queue := [], main_thread_timeout := Some (Timeout main_thread_fn 50)\<rparr>"
  have tick: "main_thread rs ?s' = (None, ?s'', E1 @ ?S @ [setTimeout main_thread_fn 50])"
    using main_thread_after_loop [OF loop] by simp
  have agents: "\<forall>e \<in> set E1. \<forall>sock. sent_to sock e \<longrightarrow>
               (\<exists>k a. map_of (agent_id_to_socket s) k = Some sock
                  \<and> map_of (agent_id_to_agent s) k = Some a \<and> unsent_messages a \<noteq> [])"
  proof (intro ballI allI impI)
    fix e sock assume "e \<in> set E1" "sent_to sock e"
    with sends obtain k a where "map_of (agent_id_to_socket ?s') k = Some sock"
      "map_of (agent_id_to_agent ?s') k = Some a" "unsent_messages a \<noteq> []" by blast
    then show "\<exists>k a. map_of (agent_id_to_socket s) k = Some sock
                  \<and> map_of (agent_id_to_agent s) k = Some a \<and> unsent_messages a \<noteq> []"
      by auto
  qed
  have empty: "agent_id_to_socket s = [] \<longrightarrow> E1 = []"
    using loop by auto
  have opened: "rs latest \<noteq> 3 \<longrightarrow>
       main_thread rs ?s' =
         (None, ?s'',
          E1 @ concat (map (\<lambda>pkt. [console_log (LPacket pkt),
                                    socket_send latest pkt (ack_cb latest pkt)])
                        (mephisto_message_queue s))
             @ [setTimeout main_thread_fn 50])"
    using tick by (simp add: send_message_open)
  from tick agents empty opened
  have "main_thread rs ?s' = (None, ?s'', E1 @ ?S @ [setTimeout main_thread_fn 50])
         \<and> mephisto_message_queue ?s'' = []
         \<and> (\<forall>e \<in> set E1. \<forall>sock. sent_to sock e \<longrightarrow>
               (\<exists>k a. map_of (agent_id_to_socket s) k = Some sock
                  \<and> map_of (agent_id_to_agent s) k = Some a \<and> unsent_messages a \<noteq> []))
         \<and> (agent_id_to_socket s = [] \<longrightarrow> E1 = [])
         \<and> (rs latest \<noteq> 3 \<longrightarrow>
               main_thread rs ?s' =
                 (None, ?s'',
                  E1 @ concat (map (\<lambda>pkt. [console_log (LPacket pkt),
                                            socket_send latest pkt (ack_cb latest pkt)])
                                (mephisto_message_queue s))
                    @ [setTimeout main_thread_fn 50]))"
    by simp
  then show ?thesis
    by - (rule exI, rule exI)
qed

lemma state_after_registration:
  assumes "s' = s\<lparr>mephisto_socket := mephisto_socket s', main_thread_timeout := main_thread_timeout s'\<rparr>"
      and "mephisto_socket s' = Some sock" and "main_thread_timeout s' \<noteq> None"
  shows "\<exists>t. s' = s\<lparr>mephisto_socket := Some sock, main_thread_timeout := Some t\<rparr>"
proof -
  from assms(3) obtain t where "main_thread_timeout s' = Some t" by auto
  with assms(1,2) have "s' = s\<lparr>mephisto_socket := Some sock, main_thread_timeout := Some t\<rparr>"
    by simp
  then show ?thesis ..
qed

text \<open>
  C7. After any non-empty sequence of \<^verbatim>\<open>alive\<close> packets of the system identity, from any
  state: the one variable \<^verbatim>\<open>mephisto_socket\<close> holds the socket of the last of them, the
  dispatch timer is armed, nothing else in the state has changed, and the registrations
  together started the dispatch loop once if it was not running and not at all if it
  was: at most once. A provider request made in the state reached goes through
  \<^verbatim>\<open>_send_message\<close> on that last socket: if the socket is not closed, the log line and
  one send on it. When every key of \<^verbatim>\<open>agent_id_to_socket\<close> has an agent object, a tick in
  the state reached completes: after the batches of the agents, whose sends go to sockets
  of agents with unsent packets only, it passes each packet of \<^verbatim>\<open>mephisto_message_queue\<close>,
  in order, to \<^verbatim>\<open>_send_message\<close> on that last socket (on a socket that is not closed: the
  log line and one send on it for each packet), leaves the queue empty and re-arms the
  timer. Whether a tick completes or throws, it sends nothing on a socket that is neither
  that last socket nor the socket of an agent, hence nothing on a system socket that was
  replaced; and a provider request sends on no socket but the last.
\<close>

theorem system_registration_latest_wins:
  assumes "regs \<noteq> []" and "\<forall>r \<in> set regs. system_alive (snd r)"
  shows "\<exists>s' effs. run (registrations regs) s = (None, s', effs)
         \<and> mephisto_socket s' = Some (fst (last regs))
         \<and> main_thread_timeout s' \<noteq> None
         \<and> s' = s\<lparr>mephisto_socket := mephisto_socket s', main_thread_timeout := main_thread_timeout s'\<rparr>
         \<and> length (filter starts_loop effs) = (if main_thread_timeout s = None then 1 else 0)
         \<and> length (filter starts_loop effs) \<le> 1
         \<and> (\<forall>route rs rid pd res_obj.
               snd (app_post route rs rid pd res_obj s') =
                 send_message rs (Some (fst (last regs))) (request_packet_of route rid pd))
         \<and> (\<forall>route rs rid pd res_obj. rs (fst (last regs)) \<noteq> 3 \<longrightarrow>
               snd (app_post route rs rid pd res_obj s') =
                 [console_log (LPacket (request_packet_of route rid pd)),
                  socket_send (fst (last regs)) (request_packet_of route rid pd)
                    (ack_cb (fst (last regs)) (request_packet_of route rid pd))])
         \<and> (\<forall>route rs rid pd res_obj old. old \<noteq> (fst (last regs)) \<longrightarrow>
               (\<forall>e \<in> set (snd (app_post route rs rid pd res_obj s')). \<not> sent_to old e))
         \<and> (\<forall>rs. (\<forall>k \<in> fst ` set (agent_id_to_socket s). map_of (agent_id_to_agent s) k \<noteq> None) \<longrightarrow>
               (\<exists>s'' agent_part.
                  main_thread rs s' =
                    (None, s'',
                     agent_part
                       @ concat (map (send_message rs (Some (fst (last regs)))) (mephisto_message_queue s))
                       @ [setTimeout main_thread_fn 50])
                \<and> mephisto_message_queue s'' = []
                \<and> (\<forall>e \<in> set agent_part. \<forall>sock. sent_to sock e \<longrightarrow>
                      (\<exists>k a. map_of (agent_id_to_socket s) k = Some sock
                         \<and> map_of (agent_id_to_agent s) k = Some a \<and> unsent_messages a \<noteq> []))
                \<and> (agent_id_to_socket s = [] \<longrightarrow> agent_part = [])
                \<and> (rs (fst (last regs)) \<noteq> 3 \<longrightarrow>
                      main_thread rs s' =
                        (None, s'',
                         agent_part
                           @ concat (map (\<lambda>pkt. [console_log (LPacket pkt),
                                                   socket_send (fst (last regs)) pkt (ack_cb (fst (last regs)) pkt)])
                                       (mephisto_message_queue s))
                           @ [setTimeout main_thread_fn 50]))))
         \<and> (\<forall>rs old. old \<noteq> (fst (last regs)) \<and> (\<forall>k. map_of (agent_id_to_socket s) k \<noteq> Some old) \<longrightarrow>
               (\<forall>e \<in> set (snd (snd (main_thread rs s'))). \<not> sent_to old e))"
proof -
  from run_registrations [OF assms, of s] obtain t effs where
    run: "run (registrations regs) s =
           (None, s\<lparr>mephisto_socket := Some (fst (last regs)), main_thread_timeout := Some t\<rparr>, effs)"
    and once: "length (filter starts_loop effs) = (if main_thread_timeout s = None then 1 else 0)"
    by blast
  let ?latest = "fst (last regs)"
  let ?s' = "s\<lparr>mephisto_socket := Some ?latest, main_thread_timeout := Some t\<rparr>"
  have whole: "(\<forall>rs. (\<forall>k \<in> fst ` set (agent_id_to_socket s). map_of (agent_id_to_agent s) k \<noteq> None) \<longrightarrow>
                 (\<exists>s'' agent_part.
                    main_thread rs ?s' =
                      (None, s'',
                       agent_part
                         @ concat (map (send_message rs (Some ?latest)) (mephisto_message_queue s))
                         @ [setTimeout main_thread_fn 50])
                  \<and> mephisto_message_queue s'' = []
                  \<and> (\<forall>e \<in> set agent_part. \<forall>sock. sent_to sock e \<longrightarrow>
                        (\<exists>k a. map_of (agent_id_to_socket s) k = Some sock
                           \<and> map_of (agent_id_to_agent s) k = Some a \<and> unsent_messages a \<noteq> []))
                  \<and> (agent_id_to_socket s = [] \<longrightarrow> agent_part = [])
                  \<and> (rs ?latest \<noteq> 3 \<longrightarrow>
                        main_thread rs ?s' =
                          (None, s'',
                           agent_part
                             @ concat (map (\<lambda>pkt. [console_log (LPacket pkt),
                                                     socket_send ?latest pkt (ack_cb ?latest pkt)])
                                         (mephisto_message_queue s))
                             @ [setTimeout main_thread_fn 50]))))"
    by (intro allI impI) (rule tick_after_registration)
  have others: "(\<forall>rs old. old \<noteq> ?latest \<and> (\<forall>k. map_of (agent_id_to_socket s) k \<noteq> Some old) \<longrightarrow>
                  (\<forall>e \<in> set (snd (snd (main_thread rs ?s'))). \<not> sent_to old e))"
  proof (intro allI impI ballI)
    fix rs old e
    assume old: "old \<noteq> ?latest \<and> (\<forall>k. map_of (agent_id_to_socket s) k \<noteq> Some old)"
      and e: "e \<in> set (snd (snd (main_thread rs ?s')))"
    show "\<not> sent_to old e"
    proof
      assume "sent_to old e"
      from main_thread_sockets [OF e this] old show False by simp
    qed
  qed
  have post_eq: "(\<forall>route rs rid pd res_obj.
                  snd (app_post route rs rid pd res_obj ?s') =
                    send_message rs (Some ?latest) (request_packet_of route rid pd))"
    by (simp add: app_post_eq)
  have post_open: "(\<forall>route rs rid pd res_obj. rs ?latest \<noteq> 3 \<longrightarrow>
                    snd (app_post route rs rid pd res_obj ?s') =
                      [console_log (LPacket (request_packet_of route rid pd)),
                       socket_send ?latest (request_packet_of route rid pd)
                         (ack_cb ?latest (request_packet_of route rid pd))])"
    by (simp add: app_post_eq send_message_def)
  have post_others: "(\<forall>route rs rid pd res_obj old. old \<noteq> ?latest \<longrightarrow>
                      (\<forall>e \<in> set (snd (app_post route rs rid pd res_obj ?s')). \<not> sent_to old e))"
    by (auto simp: app_post_eq dest: send_message_sent_to)
  have basics: "run (registrations regs) s = (None, ?s', effs)
         \<and> mephisto_socket ?s' = Some ?latest
         \<and> main_thread_timeout ?s' \<noteq> None
         \<and> ?s' = s\<lparr>mephisto_socket := mephisto_socket ?s', main_thread_timeout := main_thread_timeout ?s'\<rparr>
         \<and> length (filter starts_loop effs) = (if main_thread_timeout s = None then 1 else 0)
         \<and> length (filter starts_loop effs) \<le> 1"
    using run once by simp
  show ?thesis
    apply (rule exI [of _ ?s'])
    apply (rule exI [of _ effs])
    apply (intro conjI)
    using basics apply blast
    using basics apply blast
    using basics apply blast
    using basics apply blast
    using basics apply blast
    using basics apply blast
    using post_eq apply blast
    using post_open apply blast
    using post_others apply blast
    using whole apply blast
    using others apply blast
    done
qed

theorem system_registration_latest_wins_witness:
  "(\<exists>s' effs.
      run (registrations [(system_sock, system_alive_packet), (new_system_sock, system_alive_packet)])
        two_agents = (None, s', effs)
      \<and> mephisto_socket s' = Some new_system_sock
      \<and> length (filter starts_loop effs) \<le> 1
      \<and> fst (main_thread all_open s') = None
      \<and> snd (snd (main_thread all_open s')) =
          [console_log (LPacket action_packet2),
           socket_send agent_sock action_packet2 (ack_cb agent_sock action_packet2),
           console_log (LPacket action_packet),
           socket_send agent_sock action_packet (ack_cb agent_sock action_packet),
           console_log (LPacket action_packet),
           socket_send new_system_sock action_packet (ack_cb new_system_sock action_packet),
           setTimeout main_thread_fn 50]
      \<and> filter (sent_to system_sock) (snd (snd (main_thread all_open s'))) = []
      \<and> snd (app_post request_agent all_open example_uuid None 7 s') =
          [console_log (LPacket (request_packet_of request_agent example_uuid None)),
           socket_send new_system_sock (request_packet_of request_agent example_uuid None)
             (ack_cb new_system_sock (request_packet_of request_agent example_uuid None))]
      \<and> filter (sent_to system_sock)
           (snd (app_post request_agent all_open example_uuid None 7 s')) = [])
   \<and> fst (on_message system_sock (Inr status_request_packet) initial_state) = snapshot_queued
   \<and> (\<exists>s' effs.
      run (registrations [(system_sock, system_alive_packet), (new_system_sock, system_alive_packet)])
        snapshot_queued = (None, s', effs)
      \<and> mephisto_socket s' = Some new_system_sock
      \<and> length (filter starts_loop effs) = 1
      \<and> fst (main_thread all_open s') = None
      \<and> snd (snd (main_thread all_open s')) =
          [console_log (LPacket empty_snapshot),
           socket_send new_system_sock empty_snapshot (ack_cb new_system_sock empty_snapshot),
           setTimeout main_thread_fn 50]
      \<and> filter (sent_to system_sock) (snd (snd (main_thread all_open s'))) = [])"
proof -
  let ?regs = "[(system_sock, system_alive_packet), (new_system_sock, system_alive_packet)]"
  have ne: "?regs \<noteq> []"
    and alive: "\<forall>r \<in> set ?regs. system_alive (snd r)"
    by (simp_all add: system_alive_def system_alive_packet_def PACKET_TYPE_ALIVE_def
        SYSTEM_SOCKET_ID_def)
  have opened: "all_open (fst (last ?regs)) \<noteq> 3"
    by (simp add: all_open_def)
  have replaced: "system_sock \<noteq> fst (last ?regs)"
    by (simp add: system_sock_def new_system_sock_def)
  have first: "\<exists>s' effs.
      run (registrations ?regs) two_agents = (None, s', effs)
      \<and> mephisto_socket s' = Some new_system_sock
      \<and> length (filter starts_loop effs) \<le> 1
      \<and> fst (main_thread all_open s') = None
      \<and> snd (snd (main_thread all_open s')) =
          [console_log (LPacket action_packet2),
           socket_send agent_sock action_packet2 (ack_cb agent_sock action_packet2),
           console_log (LPacket action_packet),
           socket_send agent_sock action_packet (ack_cb agent_sock action_packet),
           console_log (LPacket action_packet),
           socket_send new_system_sock action_packet (ack_cb new_system_sock action_packet),
           setTimeout main_thread_fn 50]
      \<and> filter (sent_to system_sock) (snd (snd (main_thread all_open s'))) = []
      \<and> snd (app_post request_agent all_open example_uuid None 7 s') =
          [console_log (LPacket (request_packet_of request_agent example_uuid None)),
           socket_send new_system_sock (request_packet_of request_agent example_uuid None)
             (ack_cb new_system_sock (request_packet_of request_agent example_uuid None))]
      \<and> filter (sent_to system_sock)
           (snd (app_post request_agent all_open example_uuid None 7 s')) = []"
  proof -
    have known: "\<forall>k \<in> fst ` set (agent_id_to_socket two_agents).
                   map_of (agent_id_to_agent two_agents) k \<noteq> None"
      by (simp add: two_agents_def)
    have old: "system_sock \<noteq> fst (last ?regs)
                 \<and> (\<forall>k. map_of (agent_id_to_socket two_agents) k \<noteq> Some system_sock)"
      by (simp add: two_agents_def system_sock_def new_system_sock_def agent_sock_def other_sock_def)
    from system_registration_latest_wins [OF ne alive, of two_agents] obtain s' effs where
      run: "run (registrations ?regs) two_agents = (None, s', effs)"
      and sock: "mephisto_socket s' = Some (fst (last ?regs))"
      and timer: "main_thread_timeout s' \<noteq> None"
      and frame: "s' = two_agents\<lparr>mephisto_socket := mephisto_socket s',
                                  main_thread_timeout := main_thread_timeout s'\<rparr>"
      and once: "length (filter starts_loop effs) \<le> 1"
      and post: "(\<forall>route rs rid pd res_obj. rs (fst (last ?regs)) \<noteq> 3 \<longrightarrow>
                       snd (app_post route rs rid pd res_obj s') =
                         [console_log (LPacket (request_packet_of route rid pd)),
                          socket_send (fst (last ?regs)) (request_packet_of route rid pd)
                            (ack_cb (fst (last ?regs)) (request_packet_of route rid pd))])"
      and post_others: "(\<forall>route rs rid pd res_obj old. old \<noteq> (fst (last ?regs)) \<longrightarrow>
                              (\<forall>e \<in> set (snd (app_post route rs rid pd res_obj s')). \<not> sent_to old e))"
      and whole: "(\<forall>rs. (\<forall>k \<in> fst ` set (agent_id_to_socket two_agents). map_of (agent_id_to_agent two_agents) k \<noteq> None) \<longrightarrow>
                        (\<exists>s'' agent_part.
                           main_thread rs s' =
                             (None, s'',
                              agent_part
                                @ concat (map (send_message rs (Some (fst (last ?regs)))) (mephisto_message_queue two_agents))
                                @ [setTimeout main_thread_fn 50])
                         \<and> mephisto_message_queue s'' = []
                         \<and> (\<forall>e \<in> set agent_part. \<forall>sock. sent_to sock e \<longrightarrow>
                               (\<exists>k a. map_of (agent_id_to_socket two_agents) k = Some sock
                                  \<and> map_of (agent_id_to_agent two_agents) k = Some a \<and> unsent_messages a \<noteq> []))
                         \<and> (agent_id_to_socket two_agents = [] \<longrightarrow> agent_part = [])
                         \<and> (rs (fst (last ?regs)) \<noteq> 3 \<longrightarrow>
                               main_thread rs s' =
                                 (None, s'',
                                  agent_part
                                    @ concat (map (\<lambda>pkt. [console_log (LPacket pkt),
                                                            socket_send (fst (last ?regs)) pkt (ack_cb (fst (last ?regs)) pkt)])
                                                (mephisto_message_queue two_agents))
                                    @ [setTimeout main_thread_fn 50]))))"
      and others: "(\<forall>rs old. old \<noteq> (fst (last ?regs)) \<and> (\<forall>k. map_of (agent_id_to_socket two_agents) k \<noteq> Some old) \<longrightarrow>
                         (\<forall>e \<in> set (snd (snd (main_thread rs s'))). \<not> sent_to old e))"
      by (elim exE conjE) (rule that, assumption+)
    from others old
    have quiet: "\<forall>e \<in> set (snd (snd (main_thread all_open s'))). \<not> sent_to system_sock e"
      by blast
    from post_others replaced
    have quiet_post: "\<forall>e \<in> set (snd (app_post request_agent all_open example_uuid None 7 s')).
                        \<not> sent_to system_sock e"
      by blast
    from whole known opened obtain s'' agent_part where
      "main_thread all_open s' =
         (None, s'',
          agent_part
            @ concat (map (\<lambda>pkt. [console_log (LPacket pkt),
                                    socket_send (fst (last ?regs)) pkt (ack_cb (fst (last ?regs)) pkt)])
                        (mephisto_message_queue two_agents))
            @ [setTimeout main_thread_fn 50])"
      by blast
    then have completes: "fst (main_thread all_open s') = None"
      by simp
    from state_after_registration [OF frame sock timer] obtain t where
      s': "s' = two_agents\<lparr>mephisto_socket := Some (fst (last ?regs)), main_thread_timeout := Some t\<rparr>"
      by blast
    have tick: "snd (snd (main_thread all_open s')) =
         [console_log (LPacket action_packet2),
          socket_send agent_sock action_packet2 (ack_cb agent_sock action_packet2),
          console_log (LPacket action_packet),
          socket_send agent_sock action_packet (ack_cb agent_sock action_packet),
          console_log (LPacket action_packet),
          socket_send new_system_sock action_packet (ack_cb new_system_sock action_packet),
          setTimeout main_thread_fn 50]"
      by (simp add: s' main_thread_def two_agents_def agent_one_def get_sendable_messages_def
          send_message_def all_open_def)
    from run sock once completes tick quiet quiet_post post opened show ?thesis
      by (auto simp: filter_empty_conv)
  qed
  have reach: "fst (on_message system_sock (Inr status_request_packet) initial_state) = snapshot_queued"
    by (simp add: on_message_def message_try_def handle_get_agent_status_def
        status_request_packet_def snapshot_queued_def empty_snapshot_def initial_state_def
        packet_type_defs SERVER_SOCKET_ID_def SYSTEM_SOCKET_ID_def)
  have second: "\<exists>s' effs.
      run (registrations ?regs) snapshot_queued = (None, s', effs)
      \<and> mephisto_socket s' = Some new_system_sock
      \<and> length (filter starts_loop effs) = 1
      \<and> fst (main_thread all_open s') = None
      \<and> snd (snd (main_thread all_open s')) =
          [console_log (LPacket empty_snapshot),
           socket_send new_system_sock empty_snapshot (ack_cb new_system_sock empty_snapshot),
           setTimeout main_thread_fn 50]
      \<and> filter (sent_to system_sock) (snd (snd (main_thread all_open s'))) = []"
  proof -
    have known: "\<forall>k \<in> fst ` set (agent_id_to_socket snapshot_queued).
                   map_of (agent_id_to_agent snapshot_queued) k \<noteq> None"
      and none: "agent_id_to_socket snapshot_queued = []"
      and timer0: "main_thread_timeout snapshot_queued = None"
      and queue: "mephisto_message_queue snapshot_queued = [empty_snapshot]"
      by (simp_all add: snapshot_queued_def initial_state_def)
    have old: "system_sock \<noteq> fst (last ?regs)
                 \<and> (\<forall>k. map_of (agent_id_to_socket snapshot_queued) k \<noteq> Some system_sock)"
      by (simp add: none system_sock_def new_system_sock_def)
    from system_registration_latest_wins [OF ne alive, of snapshot_queued] obtain s' effs where
      run: "run (registrations ?regs) snapshot_queued = (None, s', effs)"
      and sock: "mephisto_socket s' = Some (fst (last ?regs))"
      and once: "length (filter starts_loop effs) =
                   (if main_thread_timeout snapshot_queued = None then 1 else 0)"
      and whole: "(\<forall>rs. (\<forall>k \<in> fst ` set (agent_id_to_socket snapshot_queued). map_of (agent_id_to_agent snapshot_queued) k \<noteq> None) \<longrightarrow>
                        (\<exists>s'' agent_part.
                           main_thread rs s' =
                             (None, s'',
                              agent_part
                                @ concat (map (send_message rs (Some (fst (last ?regs)))) (mephisto_message_queue snapshot_queued))
                                @ [setTimeout main_thread_fn 50])
                         \<and> mephisto_message_queue s'' = []
                         \<and> (\<forall>e \<in> set agent_part. \<forall>sock. sent_to sock e \<longrightarrow>
                               (\<exists>k a. map_of (agent_id_to_socket snapshot_queued) k = Some sock
                                  \<and> map_of (agent_id_to_agent snapshot_queued) k = Some a \<and> unsent_messages a \<noteq> []))
                         \<and> (agent_id_to_socket snapshot_queued = [] \<longrightarrow> agent_part = [])
                         \<and> (rs (fst (last ?regs)) \<noteq> 3 \<longrightarrow>
                               main_thread rs s' =
                                 (None, s'',
                                  agent_part
                                    @ concat (map (\<lambda>pkt. [console_log (LPacket pkt),
                                                            socket_send (fst (last ?regs)) pkt (ack_cb (fst (last ?regs)) pkt)])
                                                (mephisto_message_queue snapshot_queued))
                                    @ [setTimeout main_thread_fn 50]))))"
      and others: "(\<forall>rs old. old \<noteq> (fst (last ?regs)) \<and> (\<forall>k. map_of (agent_id_to_socket snapshot_queued) k \<noteq> Some old) \<longrightarrow>
                         (\<forall>e \<in> set (snd (snd (main_thread rs s'))). \<not> sent_to old e))"
      by (elim exE conjE) (rule that, assumption+)
    from others old
    have quiet: "\<forall>e \<in> set (snd (snd (main_thread all_open s'))). \<not> sent_to system_sock e"
      by blast
    from whole known opened none obtain s'' where
      "main_thread all_open s' =
         (None, s'',
          [] @ concat (map (\<lambda>pkt. [console_log (LPacket pkt),
                                    socket_send (fst (last ?regs)) pkt (ack_cb (fst (last ?regs)) pkt)])
                        (mephisto_message_queue snapshot_queued))
            @ [setTimeout main_thread_fn 50])"
      by blast
    with run sock once timer0 queue quiet show ?thesis by (auto simp: filter_empty_conv)
  qed
  from first reach second show ?thesis by (intro conjI)
qed

subsection \<open>Provider requests from the HTTP routes\<close>

text \<open>
  C3, as the code has it. A call of one of the four routes stores the response handle
  under the request id and hands the request packet to \<^verbatim>\<open>_send_message\<close> on the current
  system socket during the call: with an open system socket the packet is logged and
  sent at once. \<^verbatim>\<open>mephisto_message_queue\<close> is not touched, so no tick ever delivers the
  packet.
\<close>

theorem provider_request_sent_at_call_time:
  "app_post route readyState request_id provider_data res_obj s =
     (s\<lparr>pending_provider_requests :=
          AList.update request_id res_obj (pending_provider_requests s)\<rparr>,
      send_message readyState (mephisto_socket s) (request_packet_of route request_id provider_data))
   \<and> mephisto_message_queue (fst (app_post route readyState request_id provider_data res_obj s)) =
       mephisto_message_queue s
   \<and> (mephisto_socket s = Some sock \<and> readyState sock \<noteq> 3 \<longrightarrow>
        snd (app_post route readyState request_id provider_data res_obj s) =
          [console_log (LPacket (request_packet_of route request_id provider_data)),
           socket_send sock (request_packet_of route request_id provider_data)
             (ack_cb sock (request_packet_of route request_id provider_data))])"
  by (simp add: app_post_eq send_message_def)

theorem provider_request_sent_at_call_time_witness:
  "app_post request_agent all_open ''req-1'' (Some (JObj [(''a'', JNum ''1'')])) 7 registered_state =
     (registered_state\<lparr>pending_provider_requests := [(''req-1'', 7)]\<rparr>,
      [console_log (LPacket example_request),
       socket_send system_sock example_request (ack_cb system_sock example_request)])"
proof -
  have sys: "mephisto_socket registered_state = Some system_sock \<and> all_open system_sock \<noteq> 3"
    by (simp add: registered_state_def all_open_def)
  have pkt: "request_packet_of request_agent ''req-1'' (Some (JObj [(''a'', JNum ''1'')])) = example_request"
    by (simp add: request_packet_of_def example_request_def PACKET_TYPE_NEW_AGENT_def
        SERVER_SOCKET_ID_def SYSTEM_SOCKET_ID_def)
  from provider_request_sent_at_call_time
    [of request_agent all_open "''req-1''" "Some (JObj [(''a'', JNum ''1'')])" 7 registered_state
        system_sock] sys pkt
  show ?thesis
    by (simp add: send_message_def registered_state_def initial_state_def)
qed

text \<open>
  C3 as stated fails. With the system socket registered and open, a call of
  \<^verbatim>\<open>/request_agent\<close> leaves \<^verbatim>\<open>mephisto_message_queue\<close> empty and sends the packet during
  the call; the tick that follows sends nothing.
\<close>

theorem provider_request_not_enqueued:
  "mephisto_message_queue
     (fst (app_post request_agent all_open ''req-1'' (Some (JObj [(''a'', JNum ''1'')])) 7
             registered_state)) = []
   \<and> snd (app_post request_agent all_open ''req-1'' (Some (JObj [(''a'', JNum ''1'')])) 7
             registered_state) =
       [console_log (LPacket example_request),
        socket_send system_sock example_request (ack_cb system_sock example_request)]
   \<and> snd (snd (main_thread all_open
        (fst (app_post request_agent all_open ''req-1'' (Some (JObj [(''a'', JNum ''1'')])) 7
                registered_state)))) =
       [setTimeout main_thread_fn 50]"
  by (simp add: app_post_eq send_message_def registered_state_def initial_state_def
      request_packet_of_def example_request_def PACKET_TYPE_NEW_AGENT_def SERVER_SOCKET_ID_def
      SYSTEM_SOCKET_ID_def all_open_def main_thread_def)

subsection \<open>At most one response for a request id\<close>

text \<open>
  C6. In every run from the initial state in which the routes were given pairwise
  different request ids, at most one response is written for a request id. In any
  state that holds a response handle under the key of two reply packets, the first
  reply writes the packet to that handle and deletes the entry; the second, in the state
  the first leaves, is caught inside the handler: it logs the error, writes no response
  and leaves the state as it is.
\<close>

theorem one_response_per_request_id:
  "(distinct (request_ids evs) \<longrightarrow>
      length (filter (responds_to k) (snd (snd (run evs initial_state)))) \<le> 1)
   \<and> (is_reply pkt \<and> is_reply pkt' \<and> correlation_key pkt = Inr k \<and> correlation_key pkt' = Inr k
        \<and> map_of (pending_provider_requests s) k = Some res_obj \<longrightarrow>
        on_message sock (Inr pkt) s =
          (s\<lparr>pending_provider_requests := AList.delete k (pending_provider_requests s)\<rparr>,
           [console_log (LPacket pkt), res_json res_obj pkt])
      \<and> map_of (pending_provider_requests (fst (on_message sock (Inr pkt) s))) k = None
      \<and> on_message sock' (Inr pkt') (fst (on_message sock (Inr pkt) s)) =
          (fst (on_message sock (Inr pkt) s),
           [console_log (LPacket pkt'),
            console_log (LStr ''Transient error on message''),
            console_log (LError (TypeError ''Cannot read property json of undefined''))]))"
proof (intro conjI impI)
  assume d: "distinct (request_ids evs)"
  obtain r s' effs where run: "run evs initial_state = (r, s', effs)"
    by (cases "run evs initial_state") auto
  have "\<forall>k \<in> set (request_ids evs). map_of (pending_provider_requests initial_state) k = None"
    by (simp add: initial_state_def)
  from run_responses [OF d this run, of k] run
  show "length (filter (responds_to k) (snd (snd (run evs initial_state)))) \<le> 1" by simp
next
  assume a: "is_reply pkt \<and> is_reply pkt' \<and> correlation_key pkt = Inr k \<and> correlation_key pkt' = Inr k
        \<and> map_of (pending_provider_requests s) k = Some res_obj"
  then have first: "on_message sock (Inr pkt) s =
          (s\<lparr>pending_provider_requests := AList.delete k (pending_provider_requests s)\<rparr>,
           [console_log (LPacket pkt), res_json res_obj pkt])"
    by (simp add: on_message_reply_found)
  then show "on_message sock (Inr pkt) s =
          (s\<lparr>pending_provider_requests := AList.delete k (pending_provider_requests s)\<rparr>,
           [console_log (LPacket pkt), res_json res_obj pkt])" .
  from first show gone: "map_of (pending_provider_requests (fst (on_message sock (Inr pkt) s))) k = None"
    by (simp add: delete_conv')
  from a gone show "on_message sock' (Inr pkt') (fst (on_message sock (Inr pkt) s)) =
          (fst (on_message sock (Inr pkt) s),
           [console_log (LPacket pkt'),
            console_log (LStr ''Transient error on message''),
            console_log (LError (TypeError ''Cannot read property json of undefined''))])"
    by (simp add: on_message_reply_missing)
qed

lemma run_request_events:
  "snd (snd (run request_events initial_state)) =
     [console_log (LPacket system_alive_packet), console_log (LStr ''launching main thread''),
      setTimeout main_thread_fn 50,
      console_log (LPacket (request_packet_of request_agent ''req-1'' (Some (JObj [(''a'', JNum ''1'')])))),
      socket_send system_sock (request_packet_of request_agent ''req-1'' (Some (JObj [(''a'', JNum ''1'')])))
        (ack_cb system_sock (request_packet_of request_agent ''req-1'' (Some (JObj [(''a'', JNum ''1'')])))),
      console_log (LPacket reply_packet), res_json 7 reply_packet,
      setTimeout main_thread_fn 50,
      console_log (LPacket reply_packet2),
      console_log (LStr ''Transient error on message''),
      console_log (LError (TypeError ''Cannot read property json of undefined''))]"
  by (simp add: request_events_def handle_event_def on_message_def message_try_def handle_alive_def
      resolve_provider_request_def correlation_key_def get_request_id_def app_post_eq
      main_thread_def send_message_def initial_state_def example_defs packet_type_defs
      SYSTEM_SOCKET_ID_def)

theorem one_response_per_request_id_witness:
  "length (filter (responds_to ''req-1'') (snd (snd (run request_events initial_state)))) \<le> 1
   \<and> filter (responds_to ''req-1'') (snd (snd (run request_events initial_state))) =
       [res_json 7 reply_packet]
   \<and> on_message system_sock (Inr reply_packet) parked_state =
       (initial_state, [console_log (LPacket reply_packet), res_json 7 reply_packet])
   \<and> on_message other_sock (Inr reply_packet2) initial_state =
       (initial_state,
        [console_log (LPacket reply_packet2),
         console_log (LStr ''Transient error on message''),
         console_log (LError (TypeError ''Cannot read property json of undefined''))])"
proof -
  have d: "distinct (request_ids request_events)"
    by (simp add: request_events_def)
  have keys: "is_reply reply_packet \<and> is_reply reply_packet2
        \<and> correlation_key reply_packet = Inr ''req-1'' \<and> correlation_key reply_packet2 = Inr ''req-1''
        \<and> map_of (pending_provider_requests parked_state) ''req-1'' = Some 7"
    by (simp add: is_reply_def reply_packet_def reply_packet2_def packet_type_defs
        correlation_key_def get_request_id_def parked_state_def)
  have after: "parked_state\<lparr>pending_provider_requests :=
                  AList.delete ''req-1'' (pending_provider_requests parked_state)\<rparr> = initial_state"
    by (simp add: parked_state_def initial_state_def)
  have once: "filter (responds_to ''req-1'') (snd (snd (run request_events initial_state))) =
       [res_json 7 reply_packet]"
    by (simp add: run_request_events example_defs correlation_key_def get_request_id_def)
  from one_response_per_request_id
    [where evs = request_events and k = "''req-1''" and pkt = reply_packet and pkt' = reply_packet2
       and s = parked_state and res_obj = 7 and sock = system_sock and sock' = other_sock]
    d keys after
  have bound: "length (filter (responds_to ''req-1'') (snd (snd (run request_events initial_state)))) \<le> 1"
    and first: "on_message system_sock (Inr reply_packet) parked_state =
       (initial_state, [console_log (LPacket reply_packet), res_json 7 reply_packet])"
    and second: "on_message other_sock (Inr reply_packet2)
         (fst (on_message system_sock (Inr reply_packet) parked_state)) =
       (fst (on_message system_sock (Inr reply_packet) parked_state),
        [console_log (LPacket reply_packet2),
         console_log (LStr ''Transient error on message''),
         console_log (LError (TypeError ''Cannot read property json of undefined''))])"
    by auto
  from second have "on_message other_sock (Inr reply_packet2) initial_state =
       (initial_state,
        [console_log (LPacket reply_packet2),
         console_log (LStr ''Transient error on message''),
         console_log (LError (TypeError ''Cannot read property json of undefined''))])"
    by (simp add: first)
  with bound once first show ?thesis by simp
qed

subsection \<open>A provider request before the system connection exists\<close>

lemma send_message_no_write:
  "e \<in> set (send_message rs so p) \<Longrightarrow> \<not> writes_to h e"
  by (auto simp: send_message_def split: option.splits if_splits)

lemma on_message_other_writes:
  assumes "\<not> is_reply pkt" and "on_message sock (Inr pkt) s = (s1, effs1)"
  shows "\<forall>e \<in> set effs1. \<not> writes_to h e"
proof -
  consider "packet_type pkt = PACKET_TYPE_REQUEST_AGENT_STATUS"
    | "packet_type pkt = PACKET_TYPE_AGENT_ACTION"
    | "packet_type pkt = PACKET_TYPE_ALIVE" "sender_id pkt = SYSTEM_SOCKET_ID"
    | "packet_type pkt = PACKET_TYPE_ALIVE" "sender_id pkt \<noteq> SYSTEM_SOCKET_ID"
    | "packet_type pkt \<noteq> PACKET_TYPE_REQUEST_AGENT_STATUS" "packet_type pkt \<noteq> PACKET_TYPE_AGENT_ACTION"
      "packet_type pkt \<noteq> PACKET_TYPE_ALIVE"
    by blast
  then show ?thesis
  proof cases
    case 1
    with assms(2) show ?thesis
      by (auto simp: on_message_def message_try_def handle_get_agent_status_def split: sum.splits)
  next
    case 2
    with assms(2) show ?thesis by (auto simp: on_message_def message_try_agent_action)
  next
    case 3
    then have "system_alive pkt" by (simp add: system_alive_def)
    with assms(2) show ?thesis
      by (auto simp: on_message_def message_try_system_alive split: if_splits)
  next
    case 4
    with assms(2) show ?thesis by (auto simp: on_message_def message_try_agent_alive)
  next
    case 5
    with assms show ?thesis
      by (auto simp: on_message_def message_try_def is_reply_def)
  qed
qed

lemma handle_event_parked:
  assumes step: "handle_event ev s = (r1, s1, effs1)"
      and parked: "map_of (pending_provider_requests s) rid = Some h"
      and only: "\<forall>k. map_of (pending_provider_requests s) k = Some h \<longrightarrow> k = rid"
      and quiet: "\<not> brings_reply rid ev"
      and fresh_id: "rid \<notin> set (request_ids [ev])"
      and fresh_handle: "h \<notin> set (response_handles [ev])"
  shows "(\<forall>e \<in> set effs1. \<not> writes_to h e)
       \<and> map_of (pending_provider_requests s1) rid = Some h
       \<and> (\<forall>k. map_of (pending_provider_requests s1) k = Some h \<longrightarrow> k = rid)"
proof -
  have same: ?thesis
    if "pending_provider_requests s1 = pending_provider_requests s"
      and "\<forall>e \<in> set effs1. \<not> writes_to h e"
  proof (intro conjI)
    show "\<forall>e \<in> set effs1. \<not> writes_to h e" by (rule that(2))
    show "map_of (pending_provider_requests s1) rid = Some h"
      unfolding that(1) by (rule parked)
    show "\<forall>k. map_of (pending_provider_requests s1) k = Some h \<longrightarrow> k = rid"
      unfolding that(1) by (rule only)
  qed
  show ?thesis
  proof (cases ev)
    case (ws_message sock parsed)
    show ?thesis
    proof (cases parsed)
      case (Inl err)
      with ws_message step have "pending_provider_requests s1 = pending_provider_requests s"
        "\<forall>e \<in> set effs1. \<not> writes_to h e"
        by (auto simp: handle_event_def on_message_def message_try_def)
      then show ?thesis by (rule same)
    next
      case (Inr pkt)
      from step have om: "on_message sock (Inr pkt) s = (s1, effs1)"
        by (auto simp: handle_event_def ws_message Inr split: prod.splits)
      show ?thesis
      proof (cases "is_reply pkt")
        case False
        from on_message_other [OF False om] on_message_other_writes [OF False om, of h]
        have "pending_provider_requests s1 = pending_provider_requests s"
          "\<forall>e \<in> set effs1. \<not> writes_to h e"
          by simp_all
        then show ?thesis by (rule same)
      next
        case True
        show ?thesis
        proof (cases "correlation_key pkt")
          case (Inl err)
          from om on_message_reply_no_key [OF True Inl, of sock s]
          have "pending_provider_requests s1 = pending_provider_requests s"
            "\<forall>e \<in> set effs1. \<not> writes_to h e"
            by auto
          then show ?thesis by (rule same)
        next
          case key: (Inr k')
          show ?thesis
          proof (cases "map_of (pending_provider_requests s) k'")
            case None
            from om on_message_reply_missing [OF True key None, of sock]
            have "pending_provider_requests s1 = pending_provider_requests s"
              "\<forall>e \<in> set effs1. \<not> writes_to h e"
              by auto
            then show ?thesis by (rule same)
          next
            case (Some res_obj)
            from quiet True key have other_key: "k' \<noteq> rid" by (auto simp: ws_message Inr)
            have other_handle: "res_obj \<noteq> h"
            proof
              assume "res_obj = h"
              with Some have "map_of (pending_provider_requests s) k' = Some h" by simp
              then have "k' = rid" by (rule only [rule_format])
              with other_key show False by simp
            qed
            from om on_message_reply_found [OF True key Some, of sock]
            have s1: "pending_provider_requests s1 = AList.delete k' (pending_provider_requests s)"
              and effs1: "effs1 = [console_log (LPacket pkt), res_json res_obj pkt]"
              by auto
            have a: "\<forall>e \<in> set effs1. \<not> writes_to h e"
              using other_handle by (simp add: effs1)
            have b: "map_of (pending_provider_requests s1) rid = Some h"
              using other_key parked by (simp add: s1 delete_conv')
            have c: "\<forall>k. map_of (pending_provider_requests s1) k = Some h \<longrightarrow> k = rid"
            proof (intro allI impI)
              fix k assume "map_of (pending_provider_requests s1) k = Some h"
              then have "map_of (pending_provider_requests s) k = Some h"
                by (cases "k = k'") (simp_all add: s1 delete_conv')
              then show "k = rid" by (rule only [rule_format])
            qed
            from a b c show ?thesis by (intro conjI)
          qed
        qed
      qed
    qed
  next
    case (ws_connection sock)
    with step have "pending_provider_requests s1 = pending_provider_requests s"
      "\<forall>e \<in> set effs1. \<not> writes_to h e"
      by (auto simp: handle_event_def on_connection_def)
    then show ?thesis by (rule same)
  next
    case (ws_disconnect sock)
    with step have "pending_provider_requests s1 = pending_provider_requests s"
      "\<forall>e \<in> set effs1. \<not> writes_to h e"
      by (auto simp: handle_event_def on_disconnect_def)
    then show ?thesis by (rule same)
  next
    case (ws_error sock err)
    with step have "pending_provider_requests s1 = pending_provider_requests s"
      "\<forall>e \<in> set effs1. \<not> writes_to h e"
      by (auto simp: handle_event_def on_error_def)
    then show ?thesis by (rule same)
  next
    case (timer_main_thread rs)
    with step have "main_thread rs s = (r1, s1, effs1)" by (simp add: handle_event_def)
    from main_thread_effects [OF this] have
      "pending_provider_requests s1 = pending_provider_requests s"
      "\<forall>e \<in> set effs1. \<not> writes_to h e"
      by (auto dest: send_message_no_write)
    then show ?thesis by (rule same)
  next
    case (http_post route rs rid' pd res_obj)
    with step have s1: "pending_provider_requests s1 =
        AList.update rid' res_obj (pending_provider_requests s)"
      and effs1: "effs1 = send_message rs (mephisto_socket s) (request_packet_of route rid' pd)"
      by (auto simp: handle_event_def app_post_eq)
    from fresh_id fresh_handle http_post have other_key: "rid' \<noteq> rid" and other_handle: "res_obj \<noteq> h"
      by auto
    have a: "\<forall>e \<in> set effs1. \<not> writes_to h e"
      unfolding effs1 by (auto dest: send_message_no_write)
    have b: "map_of (pending_provider_requests s1) rid = Some h"
      using other_key parked by (simp add: s1 update_conv')
    have c: "\<forall>k. map_of (pending_provider_requests s1) k = Some h \<longrightarrow> k = rid"
    proof (intro allI impI)
      fix k assume "map_of (pending_provider_requests s1) k = Some h"
      with other_handle have "map_of (pending_provider_requests s) k = Some h"
        by (cases "k = rid'") (simp_all add: s1 update_conv')
      then show "k = rid" by (rule only [rule_format])
    qed
    from a b c show ?thesis by (intro conjI)
  qed
qed

lemma run_parked:
  assumes "run evs s = (r, s', effs)"
      and "map_of (pending_provider_requests s) rid = Some h"
      and "\<forall>k. map_of (pending_provider_requests s) k = Some h \<longrightarrow> k = rid"
      and "\<forall>ev \<in> set evs. \<not> brings_reply rid ev"
      and "rid \<notin> set (request_ids evs)"
      and "h \<notin> set (response_handles evs)"
  shows "(\<forall>e \<in> set effs. \<not> writes_to h e)
       \<and> map_of (pending_provider_requests s') rid = Some h"
  using assms
proof (induction evs arbitrary: s r s' effs)
  case Nil
  from Nil.prems(1,2) show ?case by simp
next
  case (Cons ev evs)
  obtain r1 s1 effs1 where step: "handle_event ev s = (r1, s1, effs1)"
    by (cases "handle_event ev s") auto
  have ids: "request_ids (ev # evs) = request_ids [ev] @ request_ids evs"
    and handles: "response_handles (ev # evs) = response_handles [ev] @ response_handles evs"
    by (cases ev; simp)+
  from Cons.prems(4,5,6) have here: "\<not> brings_reply rid ev" "rid \<notin> set (request_ids [ev])"
    "h \<notin> set (response_handles [ev])"
    and later: "\<forall>ev \<in> set evs. \<not> brings_reply rid ev" "rid \<notin> set (request_ids evs)"
    "h \<notin> set (response_handles evs)"
    by (simp_all add: ids handles)
  note inv = handle_event_parked [OF step Cons.prems(2,3) here]
  have 1: "\<forall>e \<in> set effs1. \<not> writes_to h e"
    and 2: "map_of (pending_provider_requests s1) rid = Some h"
    and 3: "\<forall>k. map_of (pending_provider_requests s1) k = Some h \<longrightarrow> k = rid"
    using inv [THEN conjunct1] inv [THEN conjunct2, THEN conjunct1]
      inv [THEN conjunct2, THEN conjunct2] .
  show ?case
  proof (cases r1)
    case (Some err)
    with step Cons.prems(1) have "effs = effs1" "s' = s1" by simp_all
    with 1 2 show ?thesis by simp
  next
    case None
    with step Cons.prems(1) obtain effs2 where rest: "run evs s1 = (r, s', effs2)"
      and effs: "effs = effs1 @ effs2"
      by (auto split: prod.splits)
    from Cons.IH [OF rest 2 3 later] 1 show ?thesis by (auto simp: effs)
  qed
qed

lemma agent_loop_pending:
  "agent_loop rs ks (s\<lparr>pending_provider_requests := P\<rparr>) effs =
     (case agent_loop rs ks s effs of
        (r, s', effs') \<Rightarrow> (r, s'\<lparr>pending_provider_requests := P\<rparr>, effs'))"
proof (induction ks arbitrary: s effs)
  case Nil
  show ?case by simp
next
  case (Cons k ks)
  show ?case
  proof (cases "map_of (agent_id_to_agent s) k")
    case None
    then show ?thesis by simp
  next
    case (Some a)
    let ?s1 = "s\<lparr>agent_id_to_agent := AList.update k (a\<lparr>unsent_messages := []\<rparr>) (agent_id_to_agent s)\<rparr>"
    let ?B = "concat (map (send_message rs (map_of (agent_id_to_socket s) k)) (unsent_messages a))"
    have "agent_loop rs (k # ks) (s\<lparr>pending_provider_requests := P\<rparr>) effs =
            agent_loop rs ks (?s1\<lparr>pending_provider_requests := P\<rparr>) (effs @ ?B)"
    proof -
      have comm: "s\<lparr>pending_provider_requests := P,
                     agent_id_to_agent := AList.update k (a\<lparr>unsent_messages := []\<rparr>)
                                           (agent_id_to_agent s)\<rparr> =
                  ?s1\<lparr>pending_provider_requests := P\<rparr>"
        by simp
      have "map_of (agent_id_to_agent (s\<lparr>pending_provider_requests := P\<rparr>)) k = Some a"
        using Some by simp
      from agent_loop_Cons [OF this, of rs ks effs] show ?thesis
        by (simp add: comm)
    qed
    also have "\<dots> = (case agent_loop rs ks ?s1 (effs @ ?B) of
                        (r, s', effs') \<Rightarrow> (r, s'\<lparr>pending_provider_requests := P\<rparr>, effs'))"
      by (rule Cons.IH)
    also have "agent_loop rs ks ?s1 (effs @ ?B) = agent_loop rs (k # ks) s effs"
      using Some by (simp only: agent_loop_Cons)
    finally show ?thesis .
  qed
qed

lemma main_thread_pending:
  "main_thread rs (s\<lparr>pending_provider_requests := P\<rparr>) =
     (case main_thread rs s of
        (r, s', effs) \<Rightarrow> (r, s'\<lparr>pending_provider_requests := P\<rparr>, effs))"
  by (auto simp: main_thread_def agent_loop_pending shift_all_eq Let_def
      split: prod.splits option.splits)

lemma on_message_pending:
  assumes "\<not> is_reply pkt"
  shows "on_message sock (Inr pkt) (s\<lparr>pending_provider_requests := P\<rparr>) =
           (case on_message sock (Inr pkt) s of
              (s', effs) \<Rightarrow> (s'\<lparr>pending_provider_requests := P\<rparr>, effs))"
  using assms
  by (auto simp: on_message_def message_try_def is_reply_def handle_get_agent_status_def
      handle_forward_def read_identifier_def handle_alive_def LocalAgentState_call_def Let_def
      split: sum.splits option.splits)

lemma handle_event_indep:
  assumes step: "handle_event ev s = (r, s1, effs)"
      and agree: "\<forall>k. k \<noteq> rid \<longrightarrow> map_of P k = map_of (pending_provider_requests s) k"
      and quiet: "\<not> brings_reply rid ev"
      and fresh: "rid \<notin> set (request_ids [ev])"
  shows "\<exists>P'. handle_event ev (s\<lparr>pending_provider_requests := P\<rparr>) =
                 (r, s1\<lparr>pending_provider_requests := P'\<rparr>, effs)
             \<and> (\<forall>k. k \<noteq> rid \<longrightarrow> map_of P' k = map_of (pending_provider_requests s1) k)"
proof -
  have same: ?thesis
    if "handle_event ev (s\<lparr>pending_provider_requests := P\<rparr>) =
          (r, s1\<lparr>pending_provider_requests := P\<rparr>, effs)"
      and "pending_provider_requests s1 = pending_provider_requests s"
  proof (rule exI [of _ P], rule conjI)
    show "handle_event ev (s\<lparr>pending_provider_requests := P\<rparr>) =
            (r, s1\<lparr>pending_provider_requests := P\<rparr>, effs)"
      by (rule that(1))
    show "\<forall>k. k \<noteq> rid \<longrightarrow> map_of P k = map_of (pending_provider_requests s1) k"
      unfolding that(2) by (rule agree)
  qed
  show ?thesis
  proof (cases ev)
    case (ws_connection sock)
    with step show ?thesis
      by (intro same) (auto simp: handle_event_def on_connection_def)
  next
    case (ws_disconnect sock)
    with step show ?thesis
      by (intro same) (auto simp: handle_event_def on_disconnect_def)
  next
    case (ws_error sock err)
    with step show ?thesis
      by (intro same) (auto simp: handle_event_def on_error_def)
  next
    case (timer_main_thread rs)
    with step have mt: "main_thread rs s = (r, s1, effs)" by (simp add: handle_event_def)
    show ?thesis
    proof (rule same)
      show "handle_event ev (s\<lparr>pending_provider_requests := P\<rparr>) =
              (r, s1\<lparr>pending_provider_requests := P\<rparr>, effs)"
        by (simp add: timer_main_thread handle_event_def main_thread_pending mt)
      from main_thread_effects [OF mt]
      show "pending_provider_requests s1 = pending_provider_requests s" by simp
    qed
  next
    case (http_post route rs rid' pd res_obj)
    from fresh http_post have other: "rid' \<noteq> rid" by auto
    from step http_post
    have s1: "s1 = s\<lparr>pending_provider_requests :=
                      AList.update rid' res_obj (pending_provider_requests s)\<rparr>"
      and r: "r = None"
      and effs: "effs = send_message rs (mephisto_socket s) (request_packet_of route rid' pd)"
      by (auto simp: handle_event_def app_post_eq)
    show ?thesis
    proof (rule exI [of _ "AList.update rid' res_obj P"], rule conjI)
      show "handle_event ev (s\<lparr>pending_provider_requests := P\<rparr>) =
              (r, s1\<lparr>pending_provider_requests := AList.update rid' res_obj P\<rparr>, effs)"
        by (simp add: http_post handle_event_def app_post_eq s1 r effs)
      show "\<forall>k. k \<noteq> rid \<longrightarrow>
              map_of (AList.update rid' res_obj P) k = map_of (pending_provider_requests s1) k"
      proof (intro allI impI)
        fix k assume "k \<noteq> rid"
        with agree have "map_of P k = map_of (pending_provider_requests s) k" by (rule_tac agree [rule_format])
        then show "map_of (AList.update rid' res_obj P) k = map_of (pending_provider_requests s1) k"
          by (simp add: s1 update_conv')
      qed
    qed
  next
    case (ws_message sock parsed)
    show ?thesis
    proof (cases parsed)
      case (Inl err)
      with ws_message step show ?thesis
        by (intro same) (auto simp: handle_event_def on_message_def message_try_def)
    next
      case (Inr pkt)
      from step have om: "on_message sock (Inr pkt) s = (s1, effs)" and r: "r = None"
        by (auto simp: handle_event_def ws_message Inr split: prod.splits)
      show ?thesis
      proof (cases "is_reply pkt")
        case False
        show ?thesis
        proof (rule same)
          show "handle_event ev (s\<lparr>pending_provider_requests := P\<rparr>) =
                  (r, s1\<lparr>pending_provider_requests := P\<rparr>, effs)"
            by (simp add: ws_message Inr handle_event_def on_message_pending [OF False] om r)
          from on_message_other [OF False om]
          show "pending_provider_requests s1 = pending_provider_requests s" by simp
        qed
      next
        case True
        show ?thesis
        proof (cases "correlation_key pkt")
          case (Inl err)
          from om on_message_reply_no_key [OF True Inl, of sock s]
          have s1: "s1 = s" and effs: "effs = [console_log (LPacket pkt),
                console_log (LStr ''Transient error on message''), console_log (LError err)]"
            by auto
          show ?thesis
          proof (rule same)
            show "handle_event ev (s\<lparr>pending_provider_requests := P\<rparr>) =
                    (r, s1\<lparr>pending_provider_requests := P\<rparr>, effs)"
              by (simp add: ws_message Inr handle_event_def on_message_reply_no_key [OF True Inl]
                  s1 effs r)
            show "pending_provider_requests s1 = pending_provider_requests s" by (simp add: s1)
          qed
        next
          case key: (Inr k')
          from quiet True key have other: "k' \<noteq> rid" by (auto simp: ws_message Inr)
          then have look: "map_of P k' = map_of (pending_provider_requests s) k'"
            by (rule agree [rule_format])
          show ?thesis
          proof (cases "map_of (pending_provider_requests s) k'")
            case None
            from om on_message_reply_missing [OF True key None, of sock]
            have s1: "s1 = s" and effs: "effs = [console_log (LPacket pkt),
                console_log (LStr ''Transient error on message''),
                console_log (LError (TypeError ''Cannot read property json of undefined''))]"
              by auto
            have "map_of (pending_provider_requests (s\<lparr>pending_provider_requests := P\<rparr>)) k' = None"
              using look None by simp
            from on_message_reply_missing [OF True key this, of sock]
            have "handle_event ev (s\<lparr>pending_provider_requests := P\<rparr>) =
                    (r, s1\<lparr>pending_provider_requests := P\<rparr>, effs)"
              by (simp add: ws_message Inr handle_event_def s1 effs r)
            then show ?thesis by (rule same) (simp add: s1)
          next
            case (Some res_obj)
            from om on_message_reply_found [OF True key Some, of sock]
            have s1: "s1 = s\<lparr>pending_provider_requests :=
                              AList.delete k' (pending_provider_requests s)\<rparr>"
              and effs: "effs = [console_log (LPacket pkt), res_json res_obj pkt]"
              by auto
            have "map_of (pending_provider_requests (s\<lparr>pending_provider_requests := P\<rparr>)) k' =
                    Some res_obj"
              using look Some by simp
            from on_message_reply_found [OF True key this, of sock]
            have run: "handle_event ev (s\<lparr>pending_provider_requests := P\<rparr>) =
                    (r, s1\<lparr>pending_provider_requests := AList.delete k' P\<rparr>, effs)"
              by (simp add: ws_message Inr handle_event_def s1 effs r)
            have rel: "\<forall>k. k \<noteq> rid \<longrightarrow>
                    map_of (AList.delete k' P) k = map_of (pending_provider_requests s1) k"
            proof (intro allI impI)
              fix k assume "k \<noteq> rid"
              then have "map_of P k = map_of (pending_provider_requests s) k"
                by (rule agree [rule_format])
              then show "map_of (AList.delete k' P) k = map_of (pending_provider_requests s1) k"
                by (simp add: s1 delete_conv')
            qed
            from run rel show ?thesis by (intro exI conjI)
          qed
        qed
      qed
    qed
  qed
qed

lemma run_indep:
  assumes "run evs s = (r, s', effs)"
      and "\<forall>k. k \<noteq> rid \<longrightarrow> map_of P k = map_of (pending_provider_requests s) k"
      and "\<forall>ev \<in> set evs. \<not> brings_reply rid ev"
      and "rid \<notin> set (request_ids evs)"
  shows "\<exists>P'. run evs (s\<lparr>pending_provider_requests := P\<rparr>) =
                 (r, s'\<lparr>pending_provider_requests := P'\<rparr>, effs)
             \<and> (\<forall>k. k \<noteq> rid \<longrightarrow> map_of P' k = map_of (pending_provider_requests s') k)"
  using assms
proof (induction evs arbitrary: s r s' effs P)
  case Nil
  from Nil.prems(1) have "r = None" "s' = s" "effs = []" by simp_all
  with Nil.prems(2) show ?case by (intro exI [of _ P]) simp
next
  case (Cons ev evs)
  obtain r1 s1 effs1 where step: "handle_event ev s = (r1, s1, effs1)"
    by (cases "handle_event ev s") auto
  have ids: "request_ids (ev # evs) = request_ids [ev] @ request_ids evs"
    by (cases ev; simp)
  from Cons.prems(3,4) have here: "\<not> brings_reply rid ev" "rid \<notin> set (request_ids [ev])"
    and later: "\<forall>ev \<in> set evs. \<not> brings_reply rid ev" "rid \<notin> set (request_ids evs)"
    by (simp_all add: ids)
  from handle_event_indep [OF step Cons.prems(2) here] obtain P1 where
    step': "handle_event ev (s\<lparr>pending_provider_requests := P\<rparr>) =
              (r1, s1\<lparr>pending_provider_requests := P1\<rparr>, effs1)"
    and agree1: "\<forall>k. k \<noteq> rid \<longrightarrow> map_of P1 k = map_of (pending_provider_requests s1) k"
    by (elim exE conjE)
  show ?case
  proof (cases r1)
    case (Some err)
    with step Cons.prems(1) have "r = Some err" "effs = effs1" "s' = s1" by simp_all
    with step' Some agree1 show ?thesis by (intro exI [of _ P1]) simp
  next
    case None
    with step Cons.prems(1) obtain effs2 where rest: "run evs s1 = (r, s', effs2)"
      and effs: "effs = effs1 @ effs2"
      by (auto split: prod.splits)
    from Cons.IH [OF rest agree1 later] obtain P' where
      rest': "run evs (s1\<lparr>pending_provider_requests := P1\<rparr>) =
                (r, s'\<lparr>pending_provider_requests := P'\<rparr>, effs2)"
      and agree': "\<forall>k. k \<noteq> rid \<longrightarrow> map_of P' k = map_of (pending_provider_requests s') k"
      by (elim exE conjE)
    have "run (ev # evs) (s\<lparr>pending_provider_requests := P\<rparr>) =
            (r, s'\<lparr>pending_provider_requests := P'\<rparr>, effs)"
      by (simp add: step' None rest' effs)
    with agree' show ?thesis by (intro exI conjI)
  qed
qed

lemma run_later_events:
  "run (http_post request_agent all_open example_uuid None 7 # later_events) initial_state =
     (None,
      initial_state\<lparr>mephisto_socket := Some system_sock,
                    main_thread_timeout := Some (Timeout main_thread_fn 50),
                    pending_provider_requests := [(example_uuid, 7)]\<rparr>,
      [console_log (LPacket system_alive_packet), console_log (LStr ''launching main thread''),
       setTimeout main_thread_fn 50,
       setTimeout main_thread_fn 50,
       console_log (LPacket reply_packet),
       console_log (LStr ''Transient error on message''),
       console_log (LError (TypeError ''Cannot read property json of undefined'')),
       console_log (LPacket (request_packet_of register_worker other_uuid None)),
       socket_send system_sock (request_packet_of register_worker other_uuid None)
         (ack_cb system_sock (request_packet_of register_worker other_uuid None)),
       console_log (LPacket other_reply), res_json 8 other_reply,
       setTimeout main_thread_fn 50])"
  by (simp add: later_events_def handle_event_def on_message_def message_try_def handle_alive_def
      resolve_provider_request_def correlation_key_def get_request_id_def app_post_eq
      main_thread_def send_message_def initial_state_def example_defs packet_type_defs
      SYSTEM_SOCKET_ID_def example_uuid_def other_uuid_def other_reply_def)

text \<open>
  C10. While \<^verbatim>\<open>mephisto_socket\<close> is \<^verbatim>\<open>null\<close>, a call of one of the four routes has no effect
  outside the server at all: the guard for a missing socket in \<^verbatim>\<open>_send_message\<close> returns
  before anything is logged or sent, and the packet is put on no queue, so nothing holds
  it for a later delivery. The response handle is stored under the request id. The
  identifier the call drew is thus in nothing that leaves the server. Take any events
  that follow in which no reply packet carries that identifier and no later call is given
  it. Then the run that starts with the call throws what the run without the call throws
  and has exactly its effects, and the two final states differ in the entry under that
  identifier only: nothing the server does afterwards depends on the call having been
  made. If moreover the response handle of the call is given to no later call and was
  parked under no other key, then nothing is ever written to that handle, and the entry
  under the request id is still stored when the run ends. In any run that follows
  without a reply packet of that key, no response is written for that request id.
\<close>

theorem provider_request_without_system_socket:
  assumes "mephisto_socket s = None"
  shows "app_post route readyState request_id provider_data res_obj s =
           (s\<lparr>pending_provider_requests :=
                AList.update request_id res_obj (pending_provider_requests s)\<rparr>, [])
       \<and> mephisto_message_queue (fst (app_post route readyState request_id provider_data res_obj s)) =
           mephisto_message_queue s
       \<and> map_of (pending_provider_requests
                   (fst (app_post route readyState request_id provider_data res_obj s))) request_id =
           Some res_obj
       \<and> ((\<forall>ev \<in> set evs. \<not> brings_reply request_id ev) \<longrightarrow>
            (\<forall>e \<in> set (snd (snd (run evs
                       (fst (app_post route readyState request_id provider_data res_obj s))))).
               \<not> responds_to request_id e))
       \<and> ((\<forall>ev \<in> set evs. \<not> brings_reply request_id ev) \<and> request_id \<notin> set (request_ids evs) \<longrightarrow>
            fst (run (http_post route readyState request_id provider_data res_obj # evs) s) =
              fst (run evs s)
          \<and> snd (snd (run (http_post route readyState request_id provider_data res_obj # evs) s)) =
              snd (snd (run evs s))
          \<and> (\<exists>P'. fst (snd (run (http_post route readyState request_id provider_data res_obj # evs) s)) =
                     (fst (snd (run evs s)))\<lparr>pending_provider_requests := P'\<rparr>
                 \<and> (\<forall>k. k \<noteq> request_id \<longrightarrow>
                       map_of P' k = map_of (pending_provider_requests (fst (snd (run evs s)))) k)))
       \<and> ((\<forall>ev \<in> set evs. \<not> brings_reply request_id ev) \<and> request_id \<notin> set (request_ids evs)
            \<and> res_obj \<notin> set (response_handles evs)
            \<and> (\<forall>k. map_of (pending_provider_requests s) k = Some res_obj \<longrightarrow> k = request_id) \<longrightarrow>
            (\<forall>e \<in> set (snd (snd (run (http_post route readyState request_id provider_data res_obj # evs) s))).
               \<not> writes_to res_obj e)
          \<and> map_of (pending_provider_requests
                (fst (snd (run (http_post route readyState request_id provider_data res_obj # evs) s))))
              request_id = Some res_obj)"
proof -
  let ?P1 = "AList.update request_id res_obj (pending_provider_requests s)"
  let ?s1 = "s\<lparr>pending_provider_requests := ?P1\<rparr>"
  let ?call = "http_post route readyState request_id provider_data res_obj"
  have call: "app_post route readyState request_id provider_data res_obj s = (?s1, [])"
    using assms by (simp add: app_post_eq send_message_def)
  have whole: "run (?call # evs) s = run evs ?s1"
    by (cases "run evs ?s1") (simp add: handle_event_def call)
  have later: "\<forall>e \<in> set (snd (snd (run evs ?s1))). \<not> responds_to request_id e"
    if none: "\<forall>ev \<in> set evs. \<not> brings_reply request_id ev"
  proof
    fix e assume e: "e \<in> set (snd (snd (run evs ?s1)))"
    obtain r s' effs where run: "run evs ?s1 = (r, s', effs)"
      by (cases "run evs ?s1") auto
    show "\<not> responds_to request_id e"
    proof
      assume "responds_to request_id e"
      with run e run_response_needs_reply [OF run, of e request_id]
      have "\<exists>ev \<in> set evs. brings_reply request_id ev" by simp
      with none show False by blast
    qed
  qed
  have unseen: "fst (run (?call # evs) s) = fst (run evs s)
          \<and> snd (snd (run (?call # evs) s)) = snd (snd (run evs s))
          \<and> (\<exists>P'. fst (snd (run (?call # evs) s)) =
                     (fst (snd (run evs s)))\<lparr>pending_provider_requests := P'\<rparr>
                 \<and> (\<forall>k. k \<noteq> request_id \<longrightarrow>
                       map_of P' k = map_of (pending_provider_requests (fst (snd (run evs s)))) k))"
    if quiet: "\<forall>ev \<in> set evs. \<not> brings_reply request_id ev"
      and fresh: "request_id \<notin> set (request_ids evs)"
  proof -
    obtain r s' effs where run: "run evs s = (r, s', effs)"
      by (cases "run evs s") auto
    have agree: "\<forall>k. k \<noteq> request_id \<longrightarrow> map_of ?P1 k = map_of (pending_provider_requests s) k"
      by (simp add: update_conv')
    from run_indep [OF run agree quiet fresh] obtain P' where
      run1: "run evs ?s1 = (r, s'\<lparr>pending_provider_requests := P'\<rparr>, effs)"
      and agree': "\<forall>k. k \<noteq> request_id \<longrightarrow> map_of P' k = map_of (pending_provider_requests s') k"
      by (elim exE conjE)
    have "fst (snd (run (?call # evs) s)) = (fst (snd (run evs s)))\<lparr>pending_provider_requests := P'\<rparr>
            \<and> (\<forall>k. k \<noteq> request_id \<longrightarrow>
                  map_of P' k = map_of (pending_provider_requests (fst (snd (run evs s)))) k)"
      using agree' unfolding whole by (simp add: run run1)
    then have "\<exists>P'. fst (snd (run (?call # evs) s)) =
                     (fst (snd (run evs s)))\<lparr>pending_provider_requests := P'\<rparr>
                 \<and> (\<forall>k. k \<noteq> request_id \<longrightarrow>
                       map_of P' k = map_of (pending_provider_requests (fst (snd (run evs s)))) k)"
      by (rule exI)
    moreover have "fst (run (?call # evs) s) = fst (run evs s)"
      "snd (snd (run (?call # evs) s)) = snd (snd (run evs s))"
      unfolding whole by (simp_all add: run run1)
    ultimately show ?thesis by (intro conjI)
  qed
  have parked: "(\<forall>e \<in> set (snd (snd (run (?call # evs) s))). \<not> writes_to res_obj e)
          \<and> map_of (pending_provider_requests (fst (snd (run (?call # evs) s)))) request_id =
              Some res_obj"
    if quiet: "\<forall>ev \<in> set evs. \<not> brings_reply request_id ev"
      and fresh: "request_id \<notin> set (request_ids evs)"
      and handle: "res_obj \<notin> set (response_handles evs)"
      and only: "\<forall>k. map_of (pending_provider_requests s) k = Some res_obj \<longrightarrow> k = request_id"
  proof -
    obtain r s' effs where run1: "run evs ?s1 = (r, s', effs)"
      by (cases "run evs ?s1") auto
    have here: "map_of (pending_provider_requests ?s1) request_id = Some res_obj"
      by (simp add: update_conv')
    have only1: "\<forall>k. map_of (pending_provider_requests ?s1) k = Some res_obj \<longrightarrow> k = request_id"
    proof (intro allI impI)
      fix k assume k: "map_of (pending_provider_requests ?s1) k = Some res_obj"
      show "k = request_id"
      proof (rule ccontr)
        assume "k \<noteq> request_id"
        with k have "map_of (pending_provider_requests s) k = Some res_obj"
          by (simp add: update_conv')
        then have "k = request_id" by (rule only [rule_format])
        with \<open>k \<noteq> request_id\<close> show False by simp
      qed
    qed
    from run_parked [OF run1 here only1 quiet fresh handle]
    show ?thesis unfolding whole by (simp add: run1)
  qed
  have basics: "app_post route readyState request_id provider_data res_obj s = (?s1, [])
       \<and> mephisto_message_queue (fst (app_post route readyState request_id provider_data res_obj s)) =
           mephisto_message_queue s
       \<and> map_of (pending_provider_requests
                   (fst (app_post route readyState request_id provider_data res_obj s))) request_id =
           Some res_obj"
    by (simp add: call update_conv')
  from later have later': "(\<forall>ev \<in> set evs. \<not> brings_reply request_id ev) \<longrightarrow>
            (\<forall>e \<in> set (snd (snd (run evs
                       (fst (app_post route readyState request_id provider_data res_obj s))))).
               \<not> responds_to request_id e)"
    by (simp add: call)
  show ?thesis
    apply (intro conjI)
    using basics apply blast
    using basics apply blast
    using basics apply blast
    using later' apply blast
    using unseen apply blast
    using parked apply blast
    done
qed

theorem provider_request_without_system_socket_witness:
  "app_post request_agent all_open example_uuid None 7 initial_state =
     (initial_state\<lparr>pending_provider_requests := [(example_uuid, 7)]\<rparr>, [])
   \<and> snd (snd (run (http_post request_agent all_open example_uuid None 7 # later_events)
                  initial_state)) =
       [console_log (LPacket system_alive_packet), console_log (LStr ''launching main thread''),
        setTimeout main_thread_fn 50,
        setTimeout main_thread_fn 50,
        console_log (LPacket reply_packet),
        console_log (LStr ''Transient error on message''),
        console_log (LError (TypeError ''Cannot read property json of undefined'')),
        console_log (LPacket (request_packet_of register_worker other_uuid None)),
        socket_send system_sock (request_packet_of register_worker other_uuid None)
          (ack_cb system_sock (request_packet_of register_worker other_uuid None)),
        console_log (LPacket other_reply), res_json 8 other_reply,
        setTimeout main_thread_fn 50]
   \<and> snd (snd (run (http_post request_agent all_open example_uuid None 7 # later_events)
                  initial_state)) =
       snd (snd (run later_events initial_state))
   \<and> fst (run (http_post request_agent all_open example_uuid None 7 # later_events) initial_state) =
       fst (run later_events initial_state)
   \<and> filter (writes_to 7)
        (snd (snd (run (http_post request_agent all_open example_uuid None 7 # later_events)
                     initial_state))) = []
   \<and> filter (responds_to example_uuid)
        (snd (snd (run later_events
                     (fst (app_post request_agent all_open example_uuid None 7 initial_state))))) = []
   \<and> map_of (pending_provider_requests
        (fst (snd (run (http_post request_agent all_open example_uuid None 7 # later_events)
                     initial_state)))) example_uuid = Some 7"
proof -
  let ?call = "http_post request_agent all_open example_uuid None 7"
  have none: "mephisto_socket initial_state = None"
    by (simp add: initial_state_def)
  have quiet: "\<forall>ev \<in> set later_events. \<not> brings_reply example_uuid ev"
    by (simp add: later_events_def is_reply_def correlation_key_def get_request_id_def
        example_defs packet_type_defs example_uuid_def other_uuid_def other_reply_def)
  have fresh: "example_uuid \<notin> set (request_ids later_events)"
    by (simp add: later_events_def example_uuid_def other_uuid_def)
  have handle: "7 \<notin> set (response_handles later_events)"
    by (simp add: later_events_def)
  have only: "\<forall>k. map_of (pending_provider_requests initial_state) k = Some 7 \<longrightarrow> k = example_uuid"
    by (simp add: initial_state_def)
  have parked: "initial_state\<lparr>pending_provider_requests :=
                  AList.update example_uuid 7 (pending_provider_requests initial_state)\<rparr> =
                initial_state\<lparr>pending_provider_requests := [(example_uuid, 7)]\<rparr>"
    by (simp add: initial_state_def)
  note inst = provider_request_without_system_socket
    [OF none, of request_agent all_open example_uuid None 7 later_events]
  from inst parked
  have call: "app_post request_agent all_open example_uuid None 7 initial_state =
     (initial_state\<lparr>pending_provider_requests := [(example_uuid, 7)]\<rparr>, [])"
    by simp
  from inst quiet fresh
  have unseen: "snd (snd (run (?call # later_events) initial_state)) =
                  snd (snd (run later_events initial_state))"
    "fst (run (?call # later_events) initial_state) = fst (run later_events initial_state)"
    by blast+
  from inst quiet fresh handle only
  have "\<forall>e \<in> set (snd (snd (run (?call # later_events) initial_state))). \<not> writes_to 7 e"
    and stored: "map_of (pending_provider_requests
        (fst (snd (run (?call # later_events) initial_state)))) example_uuid = Some 7"
    by blast+
  then have silent: "filter (writes_to 7) (snd (snd (run (?call # later_events) initial_state))) = []"
    by (simp add: filter_empty_conv)
  from inst quiet
  have "\<forall>e \<in> set (snd (snd (run later_events
                 (fst (app_post request_agent all_open example_uuid None 7 initial_state))))).
          \<not> responds_to example_uuid e"
    by blast
  then have unanswered: "filter (responds_to example_uuid)
        (snd (snd (run later_events
                     (fst (app_post request_agent all_open example_uuid None 7 initial_state))))) = []"
    by (simp add: filter_empty_conv)
  have trace: "snd (snd (run (?call # later_events) initial_state)) =
       [console_log (LPacket system_alive_packet), console_log (LStr ''launching main thread''),
        setTimeout main_thread_fn 50,
        setTimeout main_thread_fn 50,
        console_log (LPacket reply_packet),
        console_log (LStr ''Transient error on message''),
        console_log (LError (TypeError ''Cannot read property json of undefined'')),
        console_log (LPacket (request_packet_of register_worker other_uuid None)),
        socket_send system_sock (request_packet_of register_worker other_uuid None)
          (ack_cb system_sock (request_packet_of register_worker other_uuid None)),
        console_log (LPacket other_reply), res_json 8 other_reply,
        setTimeout main_thread_fn 50]"
    by (simp only: run_later_events snd_conv)
  from call trace unseen silent unanswered stored show ?thesis by (intro conjI)
qed

subsection \<open>Packets of agents\<close>

text \<open>
  C1. An \<^verbatim>\<open>agent_action\<close> packet is not enqueued. With the system socket registered,
  such a packet addressed to the system identity leaves the state as it was:
  \<^verbatim>\<open>handle_forward\<close> throws a ReferenceError on its first line and the handler's \<^verbatim>\<open>catch\<close>
  logs it; the next tick sends nothing. The same holds for every packet of that type,
  whatever its receiver, from every socket and in every state.
\<close>

theorem agent_action_not_forwarded:
  "on_message agent_sock (Inr action_packet) registered_state =
     (registered_state,
      [console_log (LPacket action_packet),
       console_log (LStr ''Transient error on message''),
       console_log (LError (ReferenceError ''alive_packet''))])
   \<and> main_thread all_open registered_state = (None, registered_state, [setTimeout main_thread_fn 50])
   \<and> on_message sock (Inr (pkt\<lparr>packet_type := PACKET_TYPE_AGENT_ACTION\<rparr>)) s =
     (s, [console_log (LPacket (pkt\<lparr>packet_type := PACKET_TYPE_AGENT_ACTION\<rparr>)),
          console_log (LStr ''Transient error on message''),
          console_log (LError (ReferenceError ''alive_packet''))])"
  by (simp add: on_message_def message_try_agent_action action_packet_def
      PACKET_TYPE_AGENT_ACTION_def main_thread_def registered_state_def initial_state_def)


lemma on_message_agents:
  assumes "on_message sock parsed s = (s1, effs1)"
  shows "agent_id_to_agent s1 = agent_id_to_agent s
       \<and> agent_id_to_socket s1 = agent_id_to_socket s
       \<and> socket_id_to_agent s1 = socket_id_to_agent s"
proof (cases parsed)
  case (Inl err)
  with assms show ?thesis by (auto simp: on_message_def message_try_def)
next
  case (Inr pkt)
  consider "packet_type pkt = PACKET_TYPE_REQUEST_AGENT_STATUS"
    | "packet_type pkt = PACKET_TYPE_AGENT_ACTION"
    | "packet_type pkt = PACKET_TYPE_ALIVE" "sender_id pkt = SYSTEM_SOCKET_ID"
    | "packet_type pkt = PACKET_TYPE_ALIVE" "sender_id pkt \<noteq> SYSTEM_SOCKET_ID"
    | "is_reply pkt"
    | "packet_type pkt \<noteq> PACKET_TYPE_REQUEST_AGENT_STATUS" "packet_type pkt \<noteq> PACKET_TYPE_AGENT_ACTION"
      "packet_type pkt \<noteq> PACKET_TYPE_ALIVE" "\<not> is_reply pkt"
    by blast
  then show ?thesis
  proof cases
    case 1
    with assms Inr show ?thesis
      by (auto simp: on_message_def message_try_def handle_get_agent_status_def split: sum.splits)
  next
    case 2
    with assms Inr show ?thesis by (auto simp: on_message_def message_try_agent_action)
  next
    case 3
    then have "system_alive pkt" by (simp add: system_alive_def)
    with assms Inr show ?thesis
      by (auto simp: on_message_def message_try_system_alive split: if_splits)
  next
    case 4
    with assms Inr show ?thesis by (auto simp: on_message_def message_try_agent_alive)
  next
    case 5
    with assms Inr show ?thesis
      by (auto simp: on_message_def message_try_reply resolve_provider_request_def
          split: sum.splits option.splits)
  next
    case 6
    with assms Inr show ?thesis
      by (auto simp: on_message_def message_try_def is_reply_def)
  qed
qed

lemma handle_event_no_agents:
  assumes "agent_id_to_socket s = []" and "agent_id_to_agent s = []"
      and "handle_event ev s = (r, s1, effs1)"
  shows "r = None \<and> agent_id_to_socket s1 = [] \<and> agent_id_to_agent s1 = []"
proof (cases ev)
  case (ws_message sock parsed)
  with assms(3) obtain "on_message sock parsed s = (s1, effs1)" "r = None"
    by (auto simp: handle_event_def split: prod.splits)
  with on_message_agents [of sock parsed s s1 effs1] assms(1,2) show ?thesis by simp
next
  case (ws_connection sock)
  with assms show ?thesis by (auto simp: handle_event_def on_connection_def)
next
  case (ws_disconnect sock)
  with assms show ?thesis by (auto simp: handle_event_def on_disconnect_def)
next
  case (ws_error sock err)
  with assms show ?thesis by (auto simp: handle_event_def on_error_def)
next
  case (timer_main_thread rs)
  with assms show ?thesis
    by (auto simp: handle_event_def main_thread_def shift_all_eq Let_def)
next
  case (http_post route rs rid pd res_obj)
  with assms show ?thesis by (auto simp: handle_event_def app_post_eq)
qed

lemma run_no_agents:
  assumes "agent_id_to_socket s = []" and "agent_id_to_agent s = []"
      and "run evs s = (r, s', effs)"
  shows "r = None \<and> agent_id_to_socket s' = [] \<and> agent_id_to_agent s' = []"
  using assms
proof (induction evs arbitrary: s r s' effs)
  case Nil
  then show ?case by simp
next
  case (Cons ev evs)
  obtain r1 s1 effs1 where step: "handle_event ev s = (r1, s1, effs1)"
    by (cases "handle_event ev s") auto
  from handle_event_no_agents [OF Cons.prems(1,2) step]
  have 1: "r1 = None" "agent_id_to_socket s1 = []" "agent_id_to_agent s1 = []" by simp_all
  with step Cons.prems(3) obtain effs2 where "run evs s1 = (r, s', effs2)"
    by (auto split: prod.splits)
  from Cons.IH [OF 1(2,3) this] show ?case .
qed

text \<open>
  C2. An \<^verbatim>\<open>alive\<close> packet of an agent registers nothing: the class is called without
  \<^verbatim>\<open>new\<close>, which throws before any of the three maps is written, and the handler's
  \<^verbatim>\<open>catch\<close> logs the error. The agent is in none of the maps afterwards; and after no
  sequence of events whatever, from the initial state, does \<^verbatim>\<open>agent_id_to_agent\<close> or
  \<^verbatim>\<open>agent_id_to_socket\<close> hold any agent.
\<close>

theorem agent_alive_not_registered:
  "on_message agent_sock (Inr agent_alive_packet) initial_state =
     (initial_state,
      [console_log (LPacket agent_alive_packet),
       console_log (LStr ''Transient error on message''),
       console_log (LError
         (TypeError ''Class constructor LocalAgentState cannot be invoked without new''))])
   \<and> map_of (agent_id_to_agent (fst (on_message agent_sock (Inr agent_alive_packet) initial_state)))
        ''agent_1'' = None
   \<and> map_of (agent_id_to_socket (fst (on_message agent_sock (Inr agent_alive_packet) initial_state)))
        ''agent_1'' = None
   \<and> agent_id_to_agent (fst (snd (run evs initial_state))) = []
   \<and> agent_id_to_socket (fst (snd (run evs initial_state))) = []"
proof -
  obtain r s' effs where run: "run evs initial_state = (r, s', effs)"
    by (cases "run evs initial_state") auto
  have "agent_id_to_socket initial_state = []" "agent_id_to_agent initial_state = []"
    by (simp_all add: initial_state_def)
  from run_no_agents [OF this run] run
  have "agent_id_to_agent (fst (snd (run evs initial_state))) = []
      \<and> agent_id_to_socket (fst (snd (run evs initial_state))) = []"
    by simp
  then show ?thesis
    by (simp add: on_message_def message_try_agent_alive agent_alive_packet_def
        PACKET_TYPE_ALIVE_def SYSTEM_SOCKET_ID_def initial_state_def)
qed



end
